theory Spec2Isabelle
  imports Main "HOL-Library.Word"
begin

unbundle bit_operations_syntax

section \<open>Types shared by the evaluator and the search\<close>

text \<open>
  The engine's \<^verbatim>\<open>types.h\<close>, \<^verbatim>\<open>position.h\<close> and \<^verbatim>\<open>movegen.h\<close> are collaborators of the
  code verified here (\<^verbatim>\<open>evaluate.cpp\<close>, \<^verbatim>\<open>search.cpp\<close>) and are not part of it.

  Modelled from the spec: the colours, piece types and pieces of the missing \<^verbatim>\<open>types.h\<close>.
  The piece types are the six of the spec with the two bounds \<^verbatim>\<open>NO_PIECE_TYPE\<close> and
  \<^verbatim>\<open>ALL_PIECES\<close>, in the order of the eight rows of \<^verbatim>\<open>mvv_lva_scores\<close>; a piece is
  empty or a colour with a type; \<^verbatim>\<open>type_of\<close> and \<^verbatim>\<open>color_of\<close> read the two
  components. Squares are the numbers 0 (a1) to 63 (h8).

  A \<^verbatim>\<open>Value\<close>, a depth, a ply and a history counter are \<open>int\<close>: the scores the engine
  handles stay between \<open>- VALUE_INFINITE\<close> and \<open>VALUE_INFINITE\<close>, and no property
  below depends on the wrap-around of a 32-bit integer. The node counter is a 64-bit word
  and the flag of a table entry an 8-bit word, as declared. The move buffers of capacity
  \<^verbatim>\<open>MAX_MOVES\<close> are lists: the list that a generator returns, and the scores of its
  moves beside it.
\<close>

datatype Color = WHITE | BLACK

datatype PieceType =
  NO_PIECE_TYPE | PAWN | KNIGHT | BISHOP | ROOK | QUEEN | KING | ALL_PIECES

datatype Piece = NO_PIECE | Pc Color PieceType

fun type_of :: "Piece \<Rightarrow> PieceType" where
  "type_of NO_PIECE = NO_PIECE_TYPE"
| "type_of (Pc c pt) = pt"

fun color_of :: "Piece \<Rightarrow> Color" where
  "color_of NO_PIECE = WHITE"
| "color_of (Pc c pt) = c"

text \<open>The position of a piece type in the enumeration, used to index the tables.\<close>

fun pt_index :: "PieceType \<Rightarrow> nat" where
  "pt_index NO_PIECE_TYPE = 0"
| "pt_index PAWN = 1"
| "pt_index KNIGHT = 2"
| "pt_index BISHOP = 3"
| "pt_index ROOK = 4"
| "pt_index QUEEN = 5"
| "pt_index KING = 6"
| "pt_index ALL_PIECES = 7"

definition VALUE_ZERO :: int where
  \<comment> \<open>Modelled from the spec: \<^verbatim>\<open>VALUE_ZERO\<close> of the missing \<^verbatim>\<open>types.h\<close> is 0.\<close>
  "VALUE_ZERO = 0"

definition VALUE_DRAW :: int where
  \<comment> \<open>Modelled from the spec: \<^verbatim>\<open>VALUE_DRAW\<close> of the missing \<^verbatim>\<open>types.h\<close> is 0.\<close>
  "VALUE_DRAW = 0"

definition SQ_A8 :: nat where
  \<comment> \<open>Modelled from the spec: square a8 of the missing \<^verbatim>\<open>types.h\<close> is 56.\<close>
  "SQ_A8 = 56"

text \<open>
  The environment of the core: the Position and move-generator interface that the code
  calls, the \<^verbatim>\<open>Move\<close> accessors, the constants of \<^verbatim>\<open>types.h\<close> whose numbers the
  sources do not show, and the monotonic clock. \<open>'p\<close> is the type of positions, \<open>'m\<close> that
  of moves. \<open>do_move\<close> and its companions return the position they leave behind;
  \<open>elapsed_ms k\<close> is the number of milliseconds between \<^verbatim>\<open>searchStart\<close> and the
  \<open>k\<close>-th later reading of the clock.
\<close>

record ('p, 'm) env =
  piece_on :: "'p \<Rightarrow> nat \<Rightarrow> Piece"
  side_to_move :: "'p \<Rightarrow> Color"
  checkers :: "'p \<Rightarrow> bool"
  key :: "'p \<Rightarrow> 64 word"
  rule50_count :: "'p \<Rightarrow> int"
  game_ply :: "'p \<Rightarrow> int"
  is_draw :: "'p \<Rightarrow> int \<Rightarrow> bool"
  capture :: "'p \<Rightarrow> 'm \<Rightarrow> bool"
  legal :: "'p \<Rightarrow> 'm \<Rightarrow> bool"
  moved_piece :: "'p \<Rightarrow> 'm \<Rightarrow> Piece"
  do_move :: "'p \<Rightarrow> 'm \<Rightarrow> 'p"
  undo_move :: "'p \<Rightarrow> 'm \<Rightarrow> 'p"
  do_null_move :: "'p \<Rightarrow> 'p"
  undo_null_move :: "'p \<Rightarrow> 'p"
  generate_LEGAL :: "'p \<Rightarrow> 'm list"
  generate_CAPTURES :: "'p \<Rightarrow> 'm list"
  generate_EVASIONS :: "'p \<Rightarrow> 'm list"
  from_sq :: "'m \<Rightarrow> nat"
  to_sq :: "'m \<Rightarrow> nat"
  Move_none :: "'m"
  MAX_PLY :: int
  VALUE_MATE :: int
  VALUE_INFINITE :: int
  elapsed_ms :: "nat \<Rightarrow> int"

definition VALUE_MATE_IN_MAX_PLY :: "('p, 'm) env \<Rightarrow> int" where
  \<comment> \<open>Modelled from the spec: \<^verbatim>\<open>VALUE_MATE_IN_MAX_PLY = VALUE_MATE - MAX_PLY\<close> (missing \<^verbatim>\<open>types.h\<close>).\<close>
  "VALUE_MATE_IN_MAX_PLY env = VALUE_MATE env - MAX_PLY env"

definition mated_in :: "('p, 'm) env \<Rightarrow> int \<Rightarrow> int" where
  \<comment> \<open>Modelled from the spec: \<^verbatim>\<open>mated_in(ply) = -(VALUE_MATE - ply)\<close> (missing \<^verbatim>\<open>types.h\<close>).\<close>
  "mated_in env ply = - (VALUE_MATE env - ply)"

section \<open>The evaluator (evaluate.cpp)\<close>

definition PieceValues :: "int list" where
  "PieceValues = [VALUE_ZERO, 100, 320, 330, 500, 900, VALUE_ZERO, VALUE_ZERO]"

definition PawnTable :: "int list" where
  "PawnTable =
   [  0,  0,  0,  0,  0,  0,  0,  0,
     50, 50, 50, 50, 50, 50, 50, 50,
     10, 10, 20, 30, 30, 20, 10, 10,
      5,  5, 10, 25, 25, 10,  5,  5,
      0,  0,  0, 20, 20,  0,  0,  0,
      5, -5,-10,  0,  0,-10, -5,  5,
      5, 10, 10,-20,-20, 10, 10,  5,
      0,  0,  0,  0,  0,  0,  0,  0]"

definition KnightTable :: "int list" where
  "KnightTable =
   [-50,-40,-30,-30,-30,-30,-40,-50,
    -40,-20,  0,  0,  0,  0,-20,-40,
    -30,  0, 10, 15, 15, 10,  0,-30,
    -30,  5, 15, 20, 20, 15,  5,-30,
    -30,  0, 15, 20, 20, 15,  0,-30,
    -30,  5, 10, 15, 15, 10,  5,-30,
    -40,-20,  0,  5,  5,  0,-20,-40,
    -50,-40,-30,-30,-30,-30,-40,-50]"

definition BishopTable :: "int list" where
  "BishopTable =
   [-20,-10,-10,-10,-10,-10,-10,-20,
    -10,  0,  0,  0,  0,  0,  0,-10,
    -10,  0,  5, 10, 10,  5,  0,-10,
    -10,  5,  5, 10, 10,  5,  5,-10,
    -10,  0, 10, 10, 10, 10,  0,-10,
    -10, 10, 10, 10, 10, 10, 10,-10,
    -10,  5,  0,  0,  0,  0,  5,-10,
    -20,-10,-10,-10,-10,-10,-10,-20]"

definition RookTable :: "int list" where
  "RookTable =
   [  0,  0,  0,  0,  0,  0,  0,  0,
      5, 10, 10, 10, 10, 10, 10,  5,
     -5,  0,  0,  0,  0,  0,  0, -5,
     -5,  0,  0,  0,  0,  0,  0, -5,
     -5,  0,  0,  0,  0,  0,  0, -5,
     -5,  0,  0,  0,  0,  0,  0, -5,
     -5,  0,  0,  0,  0,  0,  0, -5,
      0,  0,  0,  5,  5,  0,  0,  0]"

definition QueenTable :: "int list" where
  "QueenTable =
   [-20,-10,-10, -5, -5,-10,-10,-20,
    -10,  0,  0,  0,  0,  0,  0,-10,
    -10,  0,  5,  5,  5,  5,  0,-10,
     -5,  0,  5,  5,  5,  5,  0, -5,
      0,  0,  5,  5,  5,  5,  0, -5,
    -10,  5,  5,  5,  5,  5,  0,-10,
    -10,  0,  5,  0,  0,  0,  0,-10,
    -20,-10,-10, -5, -5,-10,-10,-20]"

definition KingMiddleTable :: "int list" where
  "KingMiddleTable =
   [-30,-40,-40,-50,-50,-40,-40,-30,
    -30,-40,-40,-50,-50,-40,-40,-30,
    -30,-40,-40,-50,-50,-40,-40,-30,
    -30,-40,-40,-50,-50,-40,-40,-30,
    -20,-30,-30,-40,-40,-30,-30,-20,
    -10,-20,-20,-20,-20,-20,-20,-10,
     20, 20,  0,  0,  0,  0, 20, 20,
     20, 30, 10,  0,  0, 10, 30, 20]"

definition flip_square :: "nat \<Rightarrow> nat" where
  "flip_square s = s XOR SQ_A8"

definition psqt_value :: "Piece \<Rightarrow> nat \<Rightarrow> int" where
  "psqt_value pc s =
     (let pt = type_of pc;
          c = color_of pc;
          sq = (if c = WHITE then s else flip_square s);
          v = PieceValues ! pt_index pt;
          v = (case pt of
                 PAWN \<Rightarrow> v + PawnTable ! sq
               | KNIGHT \<Rightarrow> v + KnightTable ! sq
               | BISHOP \<Rightarrow> v + BishopTable ! sq
               | ROOK \<Rightarrow> v + RookTable ! sq
               | QUEEN \<Rightarrow> v + QueenTable ! sq
               | KING \<Rightarrow> v + KingMiddleTable ! sq
               | _ \<Rightarrow> v)
      in if c = WHITE then v else - v)"

text \<open>
  One pass of the loop of \<^verbatim>\<open>evaluate\<close> over the square \<open>s\<close>; the loop runs from
  \<^verbatim>\<open>SQ_A1\<close> (0) to \<^verbatim>\<open>SQ_H8\<close> (63).
\<close>

definition evaluate_square :: "('p, 'm) env \<Rightarrow> 'p \<Rightarrow> nat \<Rightarrow> int \<Rightarrow> int" where
  "evaluate_square env p s score =
     (let pc = piece_on env p s
      in if pc \<noteq> NO_PIECE then score + psqt_value pc s else score)"

definition evaluate :: "('p, 'm) env \<Rightarrow> 'p \<Rightarrow> int" where
  "evaluate env p =
     (let score = fold (evaluate_square env p) [0..<64] VALUE_ZERO
      in if side_to_move env p = WHITE then score else - score)"

section \<open>The state of the search (search.cpp)\<close>

record 'm TTEntry =
  tt_key :: "64 word"
  tt_best_move :: "'m"
  tt_value :: int
  tt_depth :: int
  tt_flag :: "8 word"

definition TT_SIZE :: nat where
  "TT_SIZE = 2 ^ 20"

text \<open>
  The variables of the anonymous namespace, together with the position that every
  function receives by reference and changes in place through \<^verbatim>\<open>do_move\<close> and
  \<^verbatim>\<open>undo_move\<close>. \<open>clockReads\<close> counts the readings of the clock taken since
  \<^verbatim>\<open>searchStart\<close>; with \<open>elapsed_ms\<close> it stands for \<^verbatim>\<open>steady_clock::now() - searchStart\<close>.
  The arrays are functions of their indices: \<open>killerMoves ply slot\<close>,
  \<open>history color from to\<close>, \<open>tt index\<close>. The search reads and writes them inside
  their bounds: \<^verbatim>\<open>search\<close> starts at ply 0, every call adds 1 to the ply and both
  search functions return before any access when the ply exceeds \<^verbatim>\<open>MAX_PLY - 1\<close>;
  the index of the table is a remainder modulo its size.
\<close>

record ('p, 'm) state =
  pos :: "'p"
  nodeCount :: "64 word"
  clockReads :: nat
  searchTimeMs :: int
  stopSearch :: bool
  killerMoves :: "int \<Rightarrow> nat \<Rightarrow> 'm"
  history :: "Color \<Rightarrow> nat \<Rightarrow> nat \<Rightarrow> int"
  tt :: "nat \<Rightarrow> 'm TTEntry"

text \<open>
  The fields of \<^verbatim>\<open>SearchResult\<close> carry the prefix \<open>r_\<close>, since \<open>bestMove\<close>,
  \<open>score\<close> and \<open>depth\<close> are also local variables of the search functions.
\<close>

record 'm SearchResult =
  r_bestMove :: "'m"
  r_score :: int
  r_depth :: int
  r_nodes :: "64 word"

section \<open>Move ordering\<close>

definition mvv_lva_scores :: "int list list" where
  "mvv_lva_scores =
   [[0, 0, 0, 0, 0, 0, 0, 0],
    [0, 15, 14, 13, 12, 11, 10, 0],
    [0, 25, 24, 23, 22, 21, 20, 0],
    [0, 35, 34, 33, 32, 31, 30, 0],
    [0, 45, 44, 43, 42, 41, 40, 0],
    [0, 55, 54, 53, 52, 51, 50, 0],
    [0, 0, 0, 0, 0, 0, 0, 0],
    [0, 0, 0, 0, 0, 0, 0, 0]]"

text \<open>
  \<^verbatim>\<open>score_move\<close>. The capture branch of the source is two nested tests, on
  \<^verbatim>\<open>pos.capture(m)\<close> and on \<^verbatim>\<open>captured != NO_PIECE\<close>; a move that fails either goes on
  to the killer and history keys.
\<close>

definition score_move :: "('p, 'm) env \<Rightarrow> ('p, 'm) state \<Rightarrow> 'm \<Rightarrow> 'm \<Rightarrow> int \<Rightarrow> int" where
  "score_move env st m tt_move ply =
     (if m = tt_move then 1000000
      else
        let moved = moved_piece env (pos st) m;
            to = to_sq env m
        in if capture env (pos st) m \<and> piece_on env (pos st) to \<noteq> NO_PIECE
           then 900000
                + mvv_lva_scores ! pt_index (type_of moved)
                    ! pt_index (type_of (piece_on env (pos st) to)) * 1000
           else if m = killerMoves st ply 0 then 800000
           else if m = killerMoves st ply 1 then 799000
           else history st (color_of moved) (from_sq env m) to)"

text \<open>
  The lazy selection sort shared by the three move loops: the index of the first largest
  score among \<open>scores[i..n-1]\<close>, and the exchange of two cells of an array.
\<close>

definition select_best :: "int list \<Rightarrow> nat \<Rightarrow> nat \<Rightarrow> nat" where
  "select_best scores i n =
     fold (\<lambda>cur best. if scores ! cur > scores ! best then cur else best) [i + 1..<n] i"

definition swap :: "'a list \<Rightarrow> nat \<Rightarrow> nat \<Rightarrow> 'a list" where
  "swap xs i j = (if j \<noteq> i then xs[i := xs ! j, j := xs ! i] else xs)"

section \<open>Time control\<close>

definition should_stop :: "('p, 'm) env \<Rightarrow> ('p, 'm) state \<Rightarrow> bool \<times> ('p, 'm) state" where
  "should_stop env st =
     (let st =
        (if nodeCount st mod 2048 = 0
         then
           let elapsed = elapsed_ms env (clockReads st);
               st = st\<lparr>clockReads := clockReads st + 1\<rparr>
           in if elapsed \<ge> searchTimeMs st then st\<lparr>stopSearch := True\<rparr> else st
         else st)
      in (stopSearch st, st))"

section \<open>Quiescence search\<close>

text \<open>
  \<open>qsearch_moves\<close> is the move loop of \<^verbatim>\<open>qsearch\<close> from the index \<open>i\<close> on; every way
  out of it is a \<^verbatim>\<open>return\<close> of \<^verbatim>\<open>qsearch\<close>.
\<close>

function qsearch ::
    "('p, 'm) env \<Rightarrow> ('p, 'm) state \<Rightarrow> int \<Rightarrow> int \<Rightarrow> int \<Rightarrow> int \<times> ('p, 'm) state"
  and qsearch_moves ::
    "('p, 'm) env \<Rightarrow> ('p, 'm) state \<Rightarrow> int \<Rightarrow> int \<Rightarrow> int \<Rightarrow> 'm list \<Rightarrow> int list \<Rightarrow> nat
      \<Rightarrow> int \<times> ('p, 'm) state"
where
  "qsearch env st alpha beta ply =
     (if ply > MAX_PLY env - 1 then (evaluate env (pos st), st)
      else
        let st = st\<lparr>nodeCount := nodeCount st + 1\<rparr>;
            stand_pat = evaluate env (pos st)
        in if stand_pat \<ge> beta then (beta, st)
           else
             let alpha = (if alpha < stand_pat then stand_pat else alpha);
                 moveList = (if checkers env (pos st) then generate_EVASIONS env (pos st)
                             else generate_CAPTURES env (pos st));
                 scores = map (\<lambda>m. score_move env st m (Move_none env) ply) moveList
             in qsearch_moves env st alpha beta ply moveList scores 0)"
| "qsearch_moves env st alpha beta ply moveList scores i =
     (if i < length moveList then
        let best = select_best scores i (length moveList);
            moveList = swap moveList i best;
            scores = swap scores i best;
            m = moveList ! i
        in if \<not> legal env (pos st) m
           then qsearch_moves env st alpha beta ply moveList scores (i + 1)
           else
             let st = st\<lparr>pos := do_move env (pos st) m\<rparr>;
                 (v, st) = qsearch env st (- beta) (- alpha) (ply + 1);
                 score = - v;
                 st = st\<lparr>pos := undo_move env (pos st) m\<rparr>
             in if score \<ge> beta then (beta, st)
                else qsearch_moves env st (if score > alpha then score else alpha) beta ply
                       moveList scores (i + 1)
      else (alpha, st))"
  by pat_completeness auto
termination
  by (relation "(\<lambda>x. case x of
          Inl (env, st, alpha, beta, ply) \<Rightarrow> 2 * nat (MAX_PLY env - ply)
        | Inr (env, st, alpha, beta, ply, moveList, scores, i) \<Rightarrow>
            2 * nat (MAX_PLY env - ply - 1) + 1)
        <*mlex*> measure (\<lambda>x. case x of
          Inl _ \<Rightarrow> 0
        | Inr (env, st, alpha, beta, ply, moveList, scores, i) \<Rightarrow> length moveList - i)")
    (auto simp: wf_mlex mlex_less mlex_leq swap_def)

section \<open>Alpha-beta search\<close>

text \<open>The transposition-table probe of \<^verbatim>\<open>alphabeta\<close>: the move it exposes and its cutoff.\<close>

definition probe_move :: "('p, 'm) env \<Rightarrow> 'm TTEntry \<Rightarrow> 64 word \<Rightarrow> 'm" where
  "probe_move env tte posKey =
     (if tt_key tte = posKey then tt_best_move tte else Move_none env)"

definition probe_cutoff :: "'m TTEntry \<Rightarrow> 64 word \<Rightarrow> int \<Rightarrow> int \<Rightarrow> int \<Rightarrow> int option" where
  "probe_cutoff tte posKey depth alpha beta =
     (if tt_key tte = posKey \<and> tt_depth tte \<ge> depth then
        (if tt_flag tte = 0 then Some (tt_value tte)
         else if tt_flag tte = 1 \<and> tt_value tte \<ge> beta then Some beta
         else if tt_flag tte = 2 \<and> tt_value tte \<le> alpha then Some alpha
         else None)
      else None)"

text \<open>The store that ends \<^verbatim>\<open>alphabeta\<close>, through the reference \<^verbatim>\<open>tte = tt[ttIndex]\<close>.\<close>

definition tt_store ::
    "('p, 'm) state \<Rightarrow> nat \<Rightarrow> 64 word \<Rightarrow> 'm \<Rightarrow> int \<Rightarrow> int \<Rightarrow> int \<Rightarrow> int \<Rightarrow> ('p, 'm) state" where
  "tt_store st ttIndex posKey bestMove bestScore depth originalAlpha beta =
     st\<lparr>tt := (tt st)(ttIndex :=
        \<lparr>tt_key = posKey, tt_best_move = bestMove, tt_value = bestScore, tt_depth = depth,
         tt_flag = (if bestScore \<le> originalAlpha then 2
                    else if bestScore \<ge> beta then 1
                    else 0)\<rparr>)\<rparr>"

text \<open>The killer and history update of a beta cutoff by the move \<open>m\<close>.\<close>

definition cutoff_update ::
    "('p, 'm) env \<Rightarrow> ('p, 'm) state \<Rightarrow> 'm \<Rightarrow> int \<Rightarrow> int \<Rightarrow> ('p, 'm) state" where
  "cutoff_update env st m depth ply =
     (if \<not> capture env (pos st) m then
        let st = (if killerMoves st ply 0 \<noteq> m
                  then st\<lparr>killerMoves := (killerMoves st)
                         (ply := ((killerMoves st ply)(1 := killerMoves st ply 0))(0 := m))\<rparr>
                  else st);
            moved = moved_piece env (pos st) m;
            c = color_of moved;
            f = from_sq env m;
            t = to_sq env m
        in st\<lparr>history := (history st)
               (c := (history st c)(f := (history st c f)(t := history st c f t + depth * depth)))\<rparr>
      else st)"

text \<open>
  How the move loop of \<^verbatim>\<open>alphabeta\<close> is left: by the \<^verbatim>\<open>return bestScore\<close> after a
  stop, or at its end or by \<^verbatim>\<open>break\<close>, with \<^verbatim>\<open>bestScore\<close> and \<^verbatim>\<open>bestMove\<close>.
\<close>

datatype ('p, 'm) loop_exit =
  Return (returned_value: int) (returned_state: "('p, 'm) state")
  | Fall_through (final_bestScore: int) (final_bestMove: 'm) (final_state: "('p, 'm) state")

text \<open>
  \<^verbatim>\<open>alphabeta\<close> is cut into the four parts of its text, which call each other:
  \<^item> \<open>alphabeta\<close>: from the entry to the probe of the transposition table;
  \<^item> \<open>alphabeta_search\<close>: what follows the probe when it gives no cutoff, with the local
    variables \<^verbatim>\<open>inCheck\<close>, \<^verbatim>\<open>originalAlpha\<close>, \<^verbatim>\<open>posKey\<close>, \<^verbatim>\<open>ttIndex\<close> and
    \<^verbatim>\<open>ttMove\<close> as they are at that point: null-move pruning, move generation, the move
    loop and the store;
  \<^item> \<open>null_move_pruning\<close>: the null-move block; its result says whether it ended in
    \<^verbatim>\<open>return beta\<close>;
  \<^item> \<open>alphabeta_moves\<close>: the move loop from the index \<open>i\<close> on.
\<close>

function alphabeta ::
    "('p, 'm) env \<Rightarrow> ('p, 'm) state \<Rightarrow> int \<Rightarrow> int \<Rightarrow> int \<Rightarrow> int \<Rightarrow> bool \<Rightarrow> int \<times> ('p, 'm) state"
  and alphabeta_search ::
    "('p, 'm) env \<Rightarrow> ('p, 'm) state \<Rightarrow> int \<Rightarrow> int \<Rightarrow> int \<Rightarrow> int \<Rightarrow> bool \<Rightarrow> bool \<Rightarrow> int
      \<Rightarrow> 64 word \<Rightarrow> nat \<Rightarrow> 'm \<Rightarrow> int \<times> ('p, 'm) state"
  and null_move_pruning ::
    "('p, 'm) env \<Rightarrow> ('p, 'm) state \<Rightarrow> int \<Rightarrow> int \<Rightarrow> int \<Rightarrow> bool \<Rightarrow> bool
      \<Rightarrow> bool \<times> ('p, 'm) state"
  and alphabeta_moves ::
    "('p, 'm) env \<Rightarrow> ('p, 'm) state \<Rightarrow> int \<Rightarrow> int \<Rightarrow> int \<Rightarrow> int \<Rightarrow> 'm list \<Rightarrow> int list \<Rightarrow> nat
      \<Rightarrow> int \<Rightarrow> 'm \<Rightarrow> ('p, 'm) loop_exit"
where
  "alphabeta env st depth alpha beta ply doNull =
     (let (stop, st) = should_stop env st
      in if stop then (VALUE_ZERO, st)
         else if ply > MAX_PLY env - 1 then (evaluate env (pos st), st)
         else if depth \<le> 0 then qsearch env st alpha beta ply
         else
           let st = st\<lparr>nodeCount := nodeCount st + 1\<rparr>
           in if ply > 0 \<and> (is_draw env (pos st) (game_ply env (pos st))
                             \<or> rule50_count env (pos st) \<ge> 100)
              then (VALUE_DRAW, st)
              else
                let inCheck = checkers env (pos st);
                    originalAlpha = alpha;
                    posKey = key env (pos st);
                    ttIndex = unat posKey mod TT_SIZE;
                    tte = tt st ttIndex;
                    ttMove = probe_move env tte posKey
                in case probe_cutoff tte posKey depth alpha beta of
                     Some v \<Rightarrow> (v, st)
                   | None \<Rightarrow>
                       alphabeta_search env st depth alpha beta ply doNull inCheck originalAlpha
                         posKey ttIndex ttMove)"
| "alphabeta_search env st depth alpha beta ply doNull inCheck originalAlpha posKey ttIndex ttMove =
     (let (cut, st) = null_move_pruning env st depth beta ply doNull inCheck
      in if cut then (beta, st)
         else
           let moveList = generate_LEGAL env (pos st)
           in if moveList = []
              then (if inCheck then mated_in env ply else VALUE_DRAW, st)
              else
                let scores = map (\<lambda>m. score_move env st m ttMove ply) moveList;
                    bestScore = - VALUE_INFINITE env;
                    bestMove = Move_none env
                in case alphabeta_moves env st depth alpha beta ply moveList scores 0
                          bestScore bestMove of
                     Return v st \<Rightarrow> (v, st)
                   | Fall_through bestScore bestMove st \<Rightarrow>
                       (bestScore,
                        tt_store st ttIndex posKey bestMove bestScore depth originalAlpha beta))"
| "null_move_pruning env st depth beta ply doNull inCheck =
     (if doNull \<and> \<not> inCheck \<and> depth \<ge> 3 \<and> ply > 0 then
        let st = st\<lparr>pos := do_null_move env (pos st)\<rparr>;
            (v, st) = alphabeta env st (depth - 3) (- beta) (- beta + 1) (ply + 1) False;
            nullScore = - v;
            st = st\<lparr>pos := undo_null_move env (pos st)\<rparr>
        in (nullScore \<ge> beta, st)
      else (False, st))"
| "alphabeta_moves env st depth alpha beta ply moveList scores i bestScore bestMove =
     (if i < length moveList then
        let best = select_best scores i (length moveList);
            moveList = swap moveList i best;
            scores = swap scores i best;
            m = moveList ! i;
            st = st\<lparr>pos := do_move env (pos st) m\<rparr>;
            (v, st) = alphabeta env st (depth - 1) (- beta) (- alpha) (ply + 1) True;
            score = - v;
            st = st\<lparr>pos := undo_move env (pos st) m\<rparr>;
            (stop, st) = should_stop env st
        in if stop then Return bestScore st
           else if score > bestScore then
             (if score > alpha then
                (if score \<ge> beta then Fall_through score m (cutoff_update env st m depth ply)
                 else alphabeta_moves env st depth score beta ply moveList scores (i + 1) score m)
              else alphabeta_moves env st depth alpha beta ply moveList scores (i + 1) score m)
           else alphabeta_moves env st depth alpha beta ply moveList scores (i + 1)
                  bestScore bestMove
      else Fall_through bestScore bestMove st)"
  by pat_completeness auto
termination
  by (relation "(\<lambda>x. case x of
          Inl (Inl (env, st, depth, alpha, beta, ply, doNull)) \<Rightarrow> 4 * nat (MAX_PLY env - ply)
        | Inl (Inr (env, st, depth, alpha, beta, ply, rest)) \<Rightarrow>
            4 * nat (MAX_PLY env - ply - 1) + 3
        | Inr (Inl (env, st, depth, beta, ply, rest)) \<Rightarrow> 4 * nat (MAX_PLY env - ply - 1) + 2
        | Inr (Inr (env, st, depth, alpha, beta, ply, rest)) \<Rightarrow>
            4 * nat (MAX_PLY env - ply - 1) + 1)
        <*mlex*> measure (\<lambda>x. case x of
          Inr (Inr (env, st, depth, alpha, beta, ply, moveList, scores, i, rest)) \<Rightarrow>
            length moveList - i
        | _ \<Rightarrow> 0)")
    (auto simp: wf_mlex mlex_less mlex_leq swap_def)

section \<open>Iterative deepening\<close>

text \<open>
  The loop over the root moves of one depth of \<^verbatim>\<open>search\<close>. It hands back the loop
  counter \<open>i\<close> with which it was left (\<open>numMoves\<close> at its end, the index of the
  interrupted move after \<^verbatim>\<open>break\<close>), \<^verbatim>\<open>bestMove\<close>, \<^verbatim>\<open>bestScore\<close> and the
  reordered \<^verbatim>\<open>rootMoves\<close>.
\<close>

function root_moves ::
    "('p, 'm) env \<Rightarrow> ('p, 'm) state \<Rightarrow> int \<Rightarrow> int \<Rightarrow> int \<Rightarrow> 'm list \<Rightarrow> int list \<Rightarrow> nat
      \<Rightarrow> 'm \<Rightarrow> int \<Rightarrow> nat \<times> 'm \<times> int \<times> 'm list \<times> ('p, 'm) state"
where
  "root_moves env st depth alpha beta rootMoves scores i bestMove bestScore =
     (if i < length rootMoves then
        let best = select_best scores i (length rootMoves);
            rootMoves = swap rootMoves i best;
            scores = swap scores i best;
            m = rootMoves ! i;
            st = st\<lparr>pos := do_move env (pos st) m\<rparr>;
            (v, st) = alphabeta env st (depth - 1) (- beta) (- alpha) 1 True;
            score = - v;
            st = st\<lparr>pos := undo_move env (pos st) m\<rparr>;
            (stop, st) = should_stop env st
        in if stop then (i, bestMove, bestScore, rootMoves, st)
           else if score > bestScore
           then root_moves env st depth (if score > alpha then score else alpha) beta
                  rootMoves scores (i + 1) m score
           else root_moves env st depth alpha beta rootMoves scores (i + 1) bestMove bestScore
      else (i, bestMove, bestScore, rootMoves, st))"
  by pat_completeness auto
termination
  by (relation "measure (\<lambda>(env, st, depth, alpha, beta, rootMoves, scores, i, bestMove, bestScore).
          length rootMoves - i)")
    (auto simp: swap_def)

text \<open>
  The body of the loop over the depths, after its \<^verbatim>\<open>should_stop\<close> test: scoring the
  root moves and searching them.
\<close>

definition root_iteration ::
    "('p, 'm) env \<Rightarrow> ('p, 'm) state \<Rightarrow> 'm list \<Rightarrow> 'm \<Rightarrow> int
      \<Rightarrow> nat \<times> 'm \<times> int \<times> 'm list \<times> ('p, 'm) state" where
  "root_iteration env st rootMoves prevBestMove depth =
     (let scores = map (\<lambda>m. score_move env st m prevBestMove 0) rootMoves;
          alpha = - VALUE_INFINITE env;
          beta = VALUE_INFINITE env;
          bestMove = Move_none env;
          bestScore = - VALUE_INFINITE env
      in root_moves env st depth alpha beta rootMoves scores 0 bestMove bestScore)"

function iterative_deepening ::
    "('p, 'm) env \<Rightarrow> ('p, 'm) state \<Rightarrow> int \<Rightarrow> 'm list \<Rightarrow> 'm \<Rightarrow> 'm SearchResult \<Rightarrow> int
      \<Rightarrow> 'm SearchResult \<times> ('p, 'm) state"
where
  "iterative_deepening env st maxDepth rootMoves prevBestMove result depth =
     (if depth \<le> maxDepth \<and> depth \<le> 20 then
        let (stop, st) = should_stop env st
        in if stop then (result, st)
           else
             let (i, bestMove, bestScore, rootMoves, st) =
                   root_iteration env st rootMoves prevBestMove depth;
                 (stop, st) = should_stop env st;
                 commit = (\<not> stop \<and> bestMove \<noteq> Move_none env);
                 result = (if commit
                           then result\<lparr>r_bestMove := bestMove, r_score := bestScore,
                                  r_depth := depth\<rparr>
                           else result);
                 prevBestMove = (if commit then bestMove else prevBestMove)
             in if bestScore \<ge> VALUE_MATE_IN_MAX_PLY env
                   \<or> bestScore \<le> - VALUE_MATE_IN_MAX_PLY env
                then (result, st)
                else iterative_deepening env st maxDepth rootMoves prevBestMove result (depth + 1)
      else (result, st))"
  by pat_completeness auto
termination
  by (relation "measure (\<lambda>(env, st, maxDepth, rootMoves, prevBestMove, result, depth).
          nat (21 - depth))")
    auto

text \<open>
  \<^verbatim>\<open>search\<close>. The two \<^verbatim>\<open>memset\<close> calls fill the killer and history tables with zero
  bytes; the all-zero \<^verbatim>\<open>Move\<close> is \<^verbatim>\<open>Move::none()\<close> (the spec: a cleared killer table is
  empty, the default move is \<^verbatim>\<open>none\<close>). \<^verbatim>\<open>result.nodes\<close> is assigned before every
  \<^verbatim>\<open>return\<close>; until then the model holds 0 there.
\<close>

definition search ::
    "('p, 'm) env \<Rightarrow> ('p, 'm) state \<Rightarrow> int \<Rightarrow> int \<Rightarrow> 'm SearchResult \<times> ('p, 'm) state" where
  "search env st maxDepth timeMs =
     (let st = st\<lparr>nodeCount := 0, clockReads := 0, searchTimeMs := timeMs,
                 stopSearch := False,
                 killerMoves := (\<lambda>ply slot. Move_none env),
                 history := (\<lambda>c f t. 0)\<rparr>;
          result = \<lparr>r_bestMove = Move_none env, r_score = VALUE_ZERO, r_depth = 0, r_nodes = 0\<rparr>;
          rootMoves = generate_LEGAL env (pos st);
          numMoves = length rootMoves
      in if numMoves = 0 then (result\<lparr>r_nodes := nodeCount st\<rparr>, st)
         else if numMoves = 1
         then (result\<lparr>r_bestMove := rootMoves ! 0, r_score := VALUE_ZERO, r_depth := 0,
                 r_nodes := nodeCount st\<rparr>, st)
         else
           let prevBestMove = Move_none env;
               (result, st) = iterative_deepening env st maxDepth rootMoves prevBestMove result 1
           in (result\<lparr>r_nodes := nodeCount st\<rparr>, st))"

section \<open>Vocabulary of the properties\<close>

text \<open>
  The mirror image of a position: colours exchanged, the board turned upside down
  (rank 1 becomes rank 8), the other side to move. \<open>mirrored env p p'\<close> says that
  \<open>p'\<close> is the mirror image of \<open>p\<close>.
\<close>

fun opposite :: "Color \<Rightarrow> Color" where
  "opposite WHITE = BLACK"
| "opposite BLACK = WHITE"

fun swap_color :: "Piece \<Rightarrow> Piece" where
  "swap_color NO_PIECE = NO_PIECE"
| "swap_color (Pc c pt) = Pc (opposite c) pt"

definition mirrored :: "('p, 'm) env \<Rightarrow> 'p \<Rightarrow> 'p \<Rightarrow> bool" where
  "mirrored env p p' \<longleftrightarrow>
     list_all (\<lambda>s. piece_on env p' s = swap_color (piece_on env p (flip_square s))) [0..<64]
     \<and> side_to_move env p' = opposite (side_to_move env p)"

text \<open>What the square \<open>s\<close> adds to the score in the loop of \<^verbatim>\<open>evaluate\<close>.\<close>

definition contribution :: "('p, 'm) env \<Rightarrow> 'p \<Rightarrow> nat \<Rightarrow> int" where
  "contribution env p s =
     (if piece_on env p s \<noteq> NO_PIECE then psqt_value (piece_on env p s) s else 0)"

text \<open>
  A call of \<^verbatim>\<open>alphabeta\<close> reaches the probe of the transposition table when it passes
  the four tests before it: no stop, \<^verbatim>\<open>ply\<close> in range, positive \<^verbatim>\<open>depth\<close>, no draw.
  The state at the probe is \<open>at_probe\<close>: the clock may have been read, and the node is
  counted.
\<close>

definition at_probe :: "('p, 'm) env \<Rightarrow> ('p, 'm) state \<Rightarrow> ('p, 'm) state" where
  "at_probe env st =
     (snd (should_stop env st))\<lparr>nodeCount := nodeCount (snd (should_stop env st)) + 1\<rparr>"

definition reaches_probe :: "('p, 'm) env \<Rightarrow> ('p, 'm) state \<Rightarrow> int \<Rightarrow> int \<Rightarrow> bool" where
  "reaches_probe env st depth ply \<longleftrightarrow>
     \<not> fst (should_stop env st) \<and> ply \<le> MAX_PLY env - 1 \<and> 0 < depth
     \<and> \<not> (ply > 0 \<and> (is_draw env (pos st) (game_ply env (pos st))
                      \<or> rule50_count env (pos st) \<ge> 100))"

text \<open>
  The states in which the searches of the moves of the loop of \<^verbatim>\<open>alphabeta\<close> leave the
  search, in the order of the loop from the index \<open>i\<close> on: for each move that the loop
  selects, the state that \<^verbatim>\<open>alphabeta\<close> returns for the position after the move, with
  the move taken back by \<^verbatim>\<open>undo_move\<close>. It is the state on which the loop then calls
  \<^verbatim>\<open>should_stop\<close>. The list follows the loop: it ends with the move after which
  \<^verbatim>\<open>should_stop\<close> answers yes, with the move that raises \<open>alpha\<close> to \<open>beta\<close>, or with
  the last move.
\<close>

function searched_children ::
    "('p, 'm) env \<Rightarrow> ('p, 'm) state \<Rightarrow> int \<Rightarrow> int \<Rightarrow> int \<Rightarrow> int \<Rightarrow> 'm list \<Rightarrow> int list \<Rightarrow> nat
      \<Rightarrow> int \<Rightarrow> ('p, 'm) state list"
where
  "searched_children env st depth alpha beta ply moveList scores i bestScore =
     (if i < length moveList then
        let best = select_best scores i (length moveList);
            moveList = swap moveList i best;
            scores = swap scores i best;
            m = moveList ! i;
            st = st\<lparr>pos := do_move env (pos st) m\<rparr>;
            (v, st) = alphabeta env st (depth - 1) (- beta) (- alpha) (ply + 1) True;
            score = - v;
            child = st\<lparr>pos := undo_move env (pos st) m\<rparr>;
            (stop, st) = should_stop env child
        in child #
           (if stop then []
            else if score > bestScore then
              (if score > alpha then
                 (if score \<ge> beta then []
                  else searched_children env st depth score beta ply moveList scores (i + 1)
                         score)
               else searched_children env st depth alpha beta ply moveList scores (i + 1) score)
            else searched_children env st depth alpha beta ply moveList scores (i + 1)
                   bestScore)
      else [])"
  by pat_completeness auto
termination
  by (relation "measure (\<lambda>(env, st, depth, alpha, beta, ply, moveList, scores, i, bestScore).
          length moveList - i)")
    (auto simp: swap_def)

text \<open>
  The record of one pass of the loop over the depths in \<^verbatim>\<open>search\<close>: the depth, the
  loop counter with which the loop over the root moves was left (the number of root moves
  searched to the end), \<^verbatim>\<open>bestMove\<close> and \<^verbatim>\<open>bestScore\<close>, and what \<^verbatim>\<open>should_stop\<close>
  answered after the loop. \<open>depth_iteration\<close> runs one pass, from the scoring of the
  root moves to that answer. The pass commits when \<^verbatim>\<open>should_stop\<close> answered no and
  \<^verbatim>\<open>bestMove\<close> is a move; \<open>commit\<close> is the assignment to \<^verbatim>\<open>result\<close>.
\<close>

record 'm iteration =
  it_depth :: int
  it_searched :: nat
  it_bestMove :: "'m"
  it_bestScore :: int
  it_stopped :: bool

definition depth_iteration ::
    "('p, 'm) env \<Rightarrow> ('p, 'm) state \<Rightarrow> 'm list \<Rightarrow> 'm \<Rightarrow> int
      \<Rightarrow> 'm iteration \<times> 'm list \<times> ('p, 'm) state" where
  "depth_iteration env st rootMoves prevBestMove depth =
     (let (i, bestMove, bestScore, rootMoves, st) =
            root_iteration env st rootMoves prevBestMove depth;
          (stop, st) = should_stop env st
      in (\<lparr>it_depth = depth, it_searched = i, it_bestMove = bestMove,
           it_bestScore = bestScore, it_stopped = stop\<rparr>, rootMoves, st))"

definition committing :: "('p, 'm) env \<Rightarrow> 'm iteration \<Rightarrow> bool" where
  "committing env it \<longleftrightarrow> \<not> it_stopped it \<and> it_bestMove it \<noteq> Move_none env"

definition commit :: "('p, 'm) env \<Rightarrow> 'm SearchResult \<Rightarrow> 'm iteration \<Rightarrow> 'm SearchResult" where
  "commit env result it =
     (if committing env it
      then result\<lparr>r_bestMove := it_bestMove it, r_score := it_bestScore it,
             r_depth := it_depth it\<rparr>
      else result)"

definition mate_found :: "('p, 'm) env \<Rightarrow> 'm iteration \<Rightarrow> bool" where
  "mate_found env it \<longleftrightarrow>
     it_bestScore it \<ge> VALUE_MATE_IN_MAX_PLY env
     \<or> it_bestScore it \<le> - VALUE_MATE_IN_MAX_PLY env"

text \<open>
  The passes that the loop over the depths makes from \<open>depth\<close> on, in order: the run of
  \<open>iterative_deepening\<close> with the records of its passes in place of \<^verbatim>\<open>result\<close>.
\<close>

function iterations ::
    "('p, 'm) env \<Rightarrow> ('p, 'm) state \<Rightarrow> int \<Rightarrow> 'm list \<Rightarrow> 'm \<Rightarrow> int \<Rightarrow> 'm iteration list"
where
  "iterations env st maxDepth rootMoves prevBestMove depth =
     (if depth \<le> maxDepth \<and> depth \<le> 20 then
        let (stop, st) = should_stop env st
        in if stop then []
           else
             let (it, rootMoves, st) = depth_iteration env st rootMoves prevBestMove depth;
                 prevBestMove = (if committing env it then it_bestMove it else prevBestMove)
             in if mate_found env it then [it]
                else it # iterations env st maxDepth rootMoves prevBestMove (depth + 1)
      else [])"
  by pat_completeness auto
termination
  by (relation "measure (\<lambda>(env, st, maxDepth, rootMoves, prevBestMove, depth). nat (21 - depth))")
    auto

section \<open>Example positions\<close>

text \<open>
  A position for the move-ordering and evaluation examples, White to move: white king
  e1, knight c3, pawns b5 and e5; black king e8, queen f6, pawns a5 and d6; Black has just
  played a7-a5. The pawn e5 can take the queen (36 to 45) or the pawn d6 (36 to 43); the
  pawn b5 can take a5 en passant (33 to 40), a capture whose destination square is empty.
  The position \<open>False\<close> of the environment is this one, the position \<open>True\<close> its
  mirror image with Black to move. Moves are pairs of squares; no move is played in these
  examples, and \<open>do_move\<close> leaves the position as it is.
\<close>

definition example_board :: "nat \<Rightarrow> Piece" where
  "example_board s =
     (if s = 36 then Pc WHITE PAWN
      else if s = 33 then Pc WHITE PAWN
      else if s = 18 then Pc WHITE KNIGHT
      else if s = 4 then Pc WHITE KING
      else if s = 45 then Pc BLACK QUEEN
      else if s = 43 then Pc BLACK PAWN
      else if s = 32 then Pc BLACK PAWN
      else if s = 60 then Pc BLACK KING
      else NO_PIECE)"

definition example_captures :: "(nat \<times> nat) list" where
  "example_captures = [(33, 40), (36, 43), (36, 45)]"

definition example_moves :: "(nat \<times> nat) list" where
  "example_moves =
     [(4, 3), (4, 11), (4, 12),
      (18, 1), (18, 3), (18, 8), (18, 12), (18, 24), (18, 28), (18, 35),
      (33, 40), (33, 41), (36, 43), (36, 44), (36, 45)]"

definition flip_move :: "nat \<times> nat \<Rightarrow> nat \<times> nat" where
  "flip_move m = (flip_square (fst m), flip_square (snd m))"

definition example_env :: "(bool, nat \<times> nat) env" where
  "example_env =
     \<lparr>piece_on = (\<lambda>p s. if p then swap_color (example_board (flip_square s))
                         else example_board s),
      side_to_move = (\<lambda>p. if p then BLACK else WHITE),
      checkers = (\<lambda>p. False),
      key = (\<lambda>p. if p then 2 else 1),
      rule50_count = (\<lambda>p. 0),
      game_ply = (\<lambda>p. 0),
      is_draw = (\<lambda>p n. False),
      capture = (\<lambda>p m. (if p then flip_move m else m) \<in> set example_captures),
      legal = (\<lambda>p m. (if p then flip_move m else m) \<in> set example_moves),
      moved_piece = (\<lambda>p m. if p then swap_color (example_board (flip_square (fst m)))
                            else example_board (fst m)),
      do_move = (\<lambda>p m. p),
      undo_move = (\<lambda>p m. p),
      do_null_move = (\<lambda>p. p),
      undo_null_move = (\<lambda>p. p),
      generate_LEGAL = (\<lambda>p. if p then map flip_move example_moves else example_moves),
      generate_CAPTURES = (\<lambda>p. if p then map flip_move example_captures
                               else example_captures),
      generate_EVASIONS = (\<lambda>p. []),
      from_sq = fst,
      to_sq = snd,
      Move_none = (0, 0),
      MAX_PLY = 246,
      VALUE_MATE = 32000,
      VALUE_INFINITE = 32001,
      elapsed_ms = (\<lambda>k. int k)\<rparr>"

definition example_state :: "(bool, nat \<times> nat) state" where
  "example_state =
     \<lparr>pos = False,
      nodeCount = 0,
      clockReads = 0,
      searchTimeMs = 1000,
      stopSearch = False,
      killerMoves = (\<lambda>ply slot. (0, 0)),
      history = (\<lambda>c f t. 0),
      tt = (\<lambda>i. \<lparr>tt_key = 0, tt_best_move = (0, 0), tt_value = 0, tt_depth = 0,
                   tt_flag = 0\<rparr>)\<rparr>"

text \<open>
  A game tree of three moves for the search examples; the environment knows these moves
  only. A position is the list of the moves played, the last one first. At the root White
  to move has king e1 and rook a1, Black king b3. White can play 10 (the rook to a2),
  after which Black has the one move 30, taking the rook, or 20 (the rook to a8), after
  which Black is in check and has no move. The k-th reading of the clock is taken 10 k
  milliseconds after the start.
\<close>

definition toy_rook :: "nat list \<Rightarrow> nat" where
  "toy_rook p = (if p = [10] then 8 else if p = [20] then 56 else 0)"

definition toy_board :: "nat list \<Rightarrow> nat \<Rightarrow> Piece" where
  "toy_board p s =
     (if s = 4 then Pc WHITE KING
      else if s = (if p = [30, 10] then 8 else 17) then Pc BLACK KING
      else if p \<noteq> [30, 10] \<and> s = toy_rook p then Pc WHITE ROOK
      else NO_PIECE)"

definition toy_env :: "(nat list, nat) env" where
  "toy_env =
     \<lparr>piece_on = toy_board,
      side_to_move = (\<lambda>p. if even (length p) then WHITE else BLACK),
      checkers = (\<lambda>p. p = [20]),
      key = (\<lambda>p. 1 + of_nat (sum_list p)),
      rule50_count = (\<lambda>p. 0),
      game_ply = (\<lambda>p. int (length p)),
      is_draw = (\<lambda>p n. False),
      capture = (\<lambda>p m. m = 30),
      legal = (\<lambda>p m. True),
      moved_piece = (\<lambda>p m. if m = 30 then Pc BLACK KING else Pc WHITE ROOK),
      do_move = (\<lambda>p m. m # p),
      undo_move = (\<lambda>p m. tl p),
      do_null_move = (\<lambda>p. 0 # p),
      undo_null_move = tl,
      generate_LEGAL = (\<lambda>p. if p = [] then [10, 20] else if p = [10] then [30] else []),
      generate_CAPTURES = (\<lambda>p. if p = [10] then [30] else []),
      generate_EVASIONS = (\<lambda>p. []),
      from_sq = (\<lambda>m. if m = 30 then 17 else 0),
      to_sq = (\<lambda>m. if m = 20 then 56 else 8),
      Move_none = 0,
      MAX_PLY = 246,
      VALUE_MATE = 32000,
      VALUE_INFINITE = 32001,
      elapsed_ms = (\<lambda>k. 10 * int k)\<rparr>"

definition toy_state :: "(nat list, nat) state" where
  "toy_state =
     \<lparr>pos = [],
      nodeCount = 0,
      clockReads = 0,
      searchTimeMs = 1000,
      stopSearch = False,
      killerMoves = (\<lambda>ply slot. 0),
      history = (\<lambda>c f t. 0),
      tt = (\<lambda>i. \<lparr>tt_key = 0, tt_best_move = 0, tt_value = 0, tt_depth = 0, tt_flag = 0\<rparr>)\<rparr>"

text \<open>
  Two more states of the example game. In \<open>probe_state\<close> the slot of the root position
  holds an exact entry of depth 1 with the value 12345. In \<open>stop_state\<close> 2044 nodes
  have been counted and the clock has been read 200 times: the clock is read again, two
  seconds after the start, when four more nodes have been counted.
\<close>

definition probe_state :: "(nat list, nat) state" where
  "probe_state =
     toy_state\<lparr>tt := (tt toy_state)
       (1 := \<lparr>tt_key = 1, tt_best_move = 20, tt_value = 12345, tt_depth = 1, tt_flag = 0\<rparr>)\<rparr>"

definition stop_state :: "(nat list, nat) state" where
  "stop_state = toy_state\<lparr>nodeCount := 2044, clockReads := 200\<rparr>"

section \<open>Basic facts\<close>

declare qsearch.simps [simp del] qsearch_moves.simps [simp del]
  alphabeta.simps [simp del] alphabeta_search.simps [simp del]
  null_move_pruning.simps [simp del] alphabeta_moves.simps [simp del]
  root_moves.simps [simp del] iterative_deepening.simps [simp del]
  iterations.simps [simp del] searched_children.simps [simp del]

lemma length_swap [simp]: "length (swap xs i j) = length xs"
  by (simp add: swap_def)

section \<open>Move ordering\<close>


text \<open>
  C1. The header of the table announces most valuable victim, least valuable attacker,
  and the table is indexed \<^verbatim>\<open>[type_of(moved)][type_of(captured)]\<close>. Its rows then order
  the keys by the attacker and, inside a row, give the smaller key to the more valuable
  victim. In the example position the pawn e5 can take the queen f6 or the pawn d6: taking
  the queen gets the key 911000, taking the pawn the larger key 915000.
\<close>

theorem score_move_pawn_takes_queen_below_pawn_takes_pawn:
  "score_move example_env example_state (36, 45) (Move_none example_env) 0 = 911000
   \<and> score_move example_env example_state (36, 43) (Move_none example_env) 0 = 915000"
  by (simp add: score_move_def example_env_def example_state_def example_board_def
      example_captures_def mvv_lva_scores_def)




section \<open>The evaluator\<close>

lemma fold_evaluate_square:
  "fold (evaluate_square env p) xs acc = acc + sum_list (map (contribution env p) xs)"
  by (induction xs arbitrary: acc) (simp_all add: evaluate_square_def contribution_def Let_def)

lemma flip_square_less: "s < 64 \<Longrightarrow> flip_square s < 64"
proof -
  assume "s < 64"
  then have "take_bit 6 s = s" by (simp add: take_bit_nat_eq_self_iff)
  moreover have "take_bit 6 (56::nat) = 56" by (simp add: take_bit_nat_eq_self_iff)
  ultimately have "take_bit 6 (s XOR 56) = s XOR 56"
    by (simp add: take_bit_xor)
  then have "s XOR 56 < 2 ^ 6"
    using take_bit_nat_eq_self_iff [of 6 "s XOR 56"] by blast
  then show ?thesis by (simp add: flip_square_def SQ_A8_def)
qed

lemma flip_square_flip: "flip_square (flip_square s) = s"
  by (simp add: flip_square_def xor.assoc)

lemma psqt_value_swap_color:
  "psqt_value (swap_color pc) s = - psqt_value pc (flip_square s)"
  by (cases pc; cases "color_of pc")
    (auto simp: psqt_value_def Let_def flip_square_flip PieceValues_def VALUE_ZERO_def
      split: PieceType.splits)

lemma contribution_mirrored:
  assumes "mirrored env p p'" and "s < 64"
  shows "contribution env p' s = - contribution env p (flip_square s)"
proof -
  have "piece_on env p' s = swap_color (piece_on env p (flip_square s))"
    using assms by (simp add: mirrored_def list_all_iff)
  then show ?thesis
    using psqt_value_swap_color [of "piece_on env p (flip_square s)" s]
    by (cases "piece_on env p (flip_square s)")
      (simp_all add: contribution_def flip_square_flip)
qed

lemma sum_flip_square:
  "(\<Sum>s = 0..<64. f (flip_square s)) = (\<Sum>s = 0..<64. (f s :: int))"
proof (rule sum.reindex_bij_betw)
  show "bij_betw flip_square {0..<64} {0..<64}"
    by (rule bij_betw_byWitness [where f' = flip_square])
      (auto simp: flip_square_less flip_square_flip)
qed

text \<open>
  C2. A position and its mirror image (colours exchanged, board turned upside down, the
  other side to move) have the same evaluation.
\<close>

theorem evaluate_mirrored:
  assumes "mirrored env p p'"
  shows "evaluate env p' = evaluate env p"
proof -
  have "sum_list (map (contribution env p') [0..<64]) = (\<Sum>s = 0..<64. contribution env p' s)"
    by (simp add: sum_list_distinct_conv_sum_set)
  also have "\<dots> = (\<Sum>s = 0..<64. - contribution env p (flip_square s))"
    by (rule sum.cong) (simp_all add: contribution_mirrored [OF assms])
  also have "\<dots> = - (\<Sum>s = 0..<64. contribution env p (flip_square s))"
    by (simp add: sum_negf)
  also have "\<dots> = - (\<Sum>s = 0..<64. contribution env p s)"
    by (simp add: sum_flip_square)
  also have "\<dots> = - sum_list (map (contribution env p) [0..<64])"
    by (simp add: sum_list_distinct_conv_sum_set)
  finally have "fold (evaluate_square env p') [0..<64] VALUE_ZERO
                = - fold (evaluate_square env p) [0..<64] VALUE_ZERO"
    by (simp add: fold_evaluate_square VALUE_ZERO_def)
  moreover have "side_to_move env p' = opposite (side_to_move env p)"
    using assms by (simp add: mirrored_def)
  ultimately show ?thesis
    by (cases "side_to_move env p") (simp_all add: evaluate_def Let_def)
qed

lemma evaluate_example: "evaluate example_env False = - 590"
  by code_simp

lemma mirrored_example: "mirrored example_env False True"
  by (simp add: mirrored_def list_all_iff example_env_def)

theorem evaluate_mirrored_witness:
  "mirrored example_env False True
   \<and> evaluate example_env True = - 590 \<and> evaluate example_env False = - 590"
  using evaluate_mirrored [of example_env False True] mirrored_example evaluate_example
  by simp

section \<open>The example game\<close>

lemma toy_env_fields [simp]:
  "checkers toy_env p = (p = [20])"
  "generate_CAPTURES toy_env p = (if p = [10] then [30] else [])"
  "generate_EVASIONS toy_env p = []"
  "generate_LEGAL toy_env p = (if p = [] then [10, 20] else if p = [10] then [30] else [])"
  "MAX_PLY toy_env = 246"
  "VALUE_MATE toy_env = 32000"
  "VALUE_INFINITE toy_env = 32001"
  "do_move toy_env p m = m # p"
  "undo_move toy_env p m = tl p"
  "do_null_move toy_env p = 0 # p"
  "undo_null_move toy_env p = tl p"
  "legal toy_env p m"
  "capture toy_env p m = (m = 30)"
  "Move_none toy_env = 0"
  "is_draw toy_env p n = False"
  "rule50_count toy_env p = 0"
  "key toy_env p = 1 + of_nat (sum_list p)"
  "elapsed_ms toy_env k = 10 * int k"
  by (simp_all add: toy_env_def)

lemma evaluate_toy:
  "evaluate toy_env [] = 470"
  "evaluate toy_env [10] = - 475"
  "evaluate toy_env [20] = - 470"
  "evaluate toy_env [30, 10] = - 70"
  by code_simp+

lemma should_stop_toy:
  "should_stop toy_env st =
     (if nodeCount st mod 2048 = 0
      then (stopSearch st \<or> 10 * int (clockReads st) \<ge> searchTimeMs st,
            st\<lparr>clockReads := clockReads st + 1,
               stopSearch := stopSearch st \<or> 10 * int (clockReads st) \<ge> searchTimeMs st\<rparr>)
      else (stopSearch st, st))"
  by (auto simp add: should_stop_def Let_def)

text \<open>The equations that run the search on the example game.\<close>

lemmas toy_eval =
  alphabeta.simps alphabeta_search.simps null_move_pruning.simps alphabeta_moves.simps
  qsearch.simps qsearch_moves.simps root_moves.simps iterative_deepening.simps
  iterations.simps searched_children.simps depth_iteration_def committing_def commit_def mate_found_def
  should_stop_toy evaluate_toy Let_def select_best_def swap_def
  probe_cutoff_def probe_move_def tt_store_def cutoff_update_def score_move_def TT_SIZE_def
  mated_in_def VALUE_DRAW_def VALUE_ZERO_def VALUE_MATE_IN_MAX_PLY_def root_iteration_def
  reaches_probe_def at_probe_def toy_state_def probe_state_def stop_state_def

section \<open>Quiescence search\<close>



lemma qsearch_stand_pat_cutoff:
  assumes "ply \<le> MAX_PLY env - 1" and "evaluate env (pos st) \<ge> beta"
  shows "qsearch env st alpha beta ply = (beta, st\<lparr>nodeCount := nodeCount st + 1\<rparr>)"
  using assms by (subst qsearch.simps) (simp add: Let_def)



section \<open>Roots with no move or a single move\<close>

text \<open>
  The state in which \<^verbatim>\<open>search\<close> generates the root moves: counters, clock and stop
  flag reset, killer and history tables cleared, position and transposition table as
  passed in.
\<close>

lemma search_unfold:
  "search env st maxDepth timeMs =
     (let st0 = st\<lparr>nodeCount := 0, clockReads := 0, searchTimeMs := timeMs,
                   stopSearch := False,
                   killerMoves := (\<lambda>ply slot. Move_none env),
                   history := (\<lambda>c f t. 0)\<rparr>;
          result = \<lparr>r_bestMove = Move_none env, r_score = 0, r_depth = 0, r_nodes = 0\<rparr>;
          rootMoves = generate_LEGAL env (pos st)
      in if length rootMoves = 0 then (result, st0)
         else if length rootMoves = 1 then (result\<lparr>r_bestMove := rootMoves ! 0\<rparr>, st0)
         else
           let (result, st1) =
                 iterative_deepening env st0 maxDepth rootMoves (Move_none env) result 1
           in (result\<lparr>r_nodes := nodeCount st1\<rparr>, st1))"
  by (simp add: search_def Let_def VALUE_ZERO_def)

text \<open>
  C6. With no legal move at the root, \<^verbatim>\<open>search\<close> returns no move, score 0, depth 0 and
  the node count 0. The state it leaves is the reset state: the position is the one
  passed in whatever \<open>do_move\<close> and \<open>undo_move\<close> do, so neither was applied; no node
  was counted and the clock was not read.
\<close>

theorem search_no_legal_move:
  assumes "generate_LEGAL env (pos st) = []"
  shows "search env st maxDepth timeMs =
           (\<lparr>r_bestMove = Move_none env, r_score = 0, r_depth = 0, r_nodes = 0\<rparr>,
            st\<lparr>nodeCount := 0, clockReads := 0, searchTimeMs := timeMs, stopSearch := False,
               killerMoves := (\<lambda>ply slot. Move_none env), history := (\<lambda>c f t. 0)\<rparr>)"
  using assms by (simp add: search_unfold)

theorem search_no_legal_move_witness:
  "generate_LEGAL toy_env (pos (toy_state\<lparr>pos := [20]\<rparr>)) = []
   \<and> fst (search toy_env (toy_state\<lparr>pos := [20]\<rparr>) 10 1000)
       = \<lparr>r_bestMove = 0, r_score = 0, r_depth = 0, r_nodes = 0\<rparr>
   \<and> pos (snd (search toy_env (toy_state\<lparr>pos := [20]\<rparr>) 10 1000)) = [20]"
  using search_no_legal_move [of toy_env "toy_state\<lparr>pos := [20]\<rparr>" 10 1000]
  by simp

text \<open>
  C7. With exactly one legal move at the root, \<^verbatim>\<open>search\<close> returns that move with
  score 0, depth 0 and the node count 0, and leaves the reset state: nothing was
  searched, no move was made, the clock was not read.
\<close>

theorem search_single_reply:
  assumes "generate_LEGAL env (pos st) = [m]"
  shows "search env st maxDepth timeMs =
           (\<lparr>r_bestMove = m, r_score = 0, r_depth = 0, r_nodes = 0\<rparr>,
            st\<lparr>nodeCount := 0, clockReads := 0, searchTimeMs := timeMs, stopSearch := False,
               killerMoves := (\<lambda>ply slot. Move_none env), history := (\<lambda>c f t. 0)\<rparr>)"
  using assms by (simp add: search_unfold)

theorem search_single_reply_witness:
  "generate_LEGAL toy_env (pos (toy_state\<lparr>pos := [10]\<rparr>)) = [30]
   \<and> fst (search toy_env (toy_state\<lparr>pos := [10]\<rparr>) 10 1000)
       = \<lparr>r_bestMove = 30, r_score = 0, r_depth = 0, r_nodes = 0\<rparr>
   \<and> pos (snd (search toy_env (toy_state\<lparr>pos := [10]\<rparr>) 10 1000)) = [10]"
  using search_single_reply [of toy_env "toy_state\<lparr>pos := [10]\<rparr>" 30 10 1000]
  by simp

section \<open>The stop flag\<close>

lemma should_stop_fst: "fst (should_stop env st) = stopSearch (snd (should_stop env st))"
  by (simp add: should_stop_def Let_def)

lemma should_stop_mono: "stopSearch st \<Longrightarrow> stopSearch (snd (should_stop env st))"
  by (simp add: should_stop_def Let_def)

lemma should_stop_keeps [simp]:
  "pos (snd (should_stop env st)) = pos st"
  "tt (snd (should_stop env st)) = tt st"
  "nodeCount (snd (should_stop env st)) = nodeCount st"
  "killerMoves (snd (should_stop env st)) = killerMoves st"
  "history (snd (should_stop env st)) = history st"
  "searchTimeMs (snd (should_stop env st)) = searchTimeMs st"
  by (simp_all add: should_stop_def Let_def)

lemma cutoff_update_stop [simp]:
  "stopSearch (cutoff_update env st m depth ply) = stopSearch st"
  by (simp add: cutoff_update_def Let_def)

lemma tt_store_stop [simp]:
  "stopSearch (tt_store st ttIndex posKey bestMove bestScore depth originalAlpha beta)
   = stopSearch st"
  by (simp add: tt_store_def)

lemma qsearch_moves_stop:
  assumes child: "\<And>st a b. stopSearch (snd (qsearch env st a b (ply + 1))) = stopSearch st"
  shows "stopSearch (snd (qsearch_moves env st alpha beta ply moveList scores i)) = stopSearch st"
proof (induction "length moveList - i" arbitrary: st alpha moveList scores i)
  case 0
  then show ?case
    by (subst qsearch_moves.simps) simp
next
  case (Suc k)
  let ?best = "select_best scores i (length moveList)"
  let ?ml = "swap moveList i ?best"
  let ?sc = "swap scores i ?best"
  have len: "k = length ?ml - (i + 1)" and lt: "i < length moveList"
    using Suc.hyps(2) by simp_all
  note IH = Suc.hyps(1) [OF len]
  let ?m = "?ml ! i"
  obtain v st1 where q:
    "qsearch env (st\<lparr>pos := do_move env (pos st) ?m\<rparr>) (- beta) (- alpha) (ply + 1) = (v, st1)"
    by (cases "qsearch env (st\<lparr>pos := do_move env (pos st) ?m\<rparr>) (- beta) (- alpha) (ply + 1)")
  have st1: "stopSearch st1 = stopSearch st"
    using child [of "st\<lparr>pos := do_move env (pos st) ?m\<rparr>" "- beta" "- alpha"] q by simp
  let ?st2 = "st1\<lparr>pos := undo_move env (pos st1) ?m\<rparr>"
  have "qsearch_moves env st alpha beta ply moveList scores i
        = (if \<not> legal env (pos st) ?m
           then qsearch_moves env st alpha beta ply ?ml ?sc (i + 1)
           else if - v \<ge> beta then (beta, ?st2)
           else qsearch_moves env ?st2 (if - v > alpha then - v else alpha) beta ply ?ml ?sc
                  (i + 1))"
    using lt q by (subst qsearch_moves.simps) (simp add: Let_def)
  then show ?case
    using IH [of st alpha ?sc] IH [of ?st2 "if - v > alpha then - v else alpha" ?sc] st1
    by (simp split: if_splits)
qed

lemma qsearch_stop:
  "stopSearch (snd (qsearch env st alpha beta ply)) = stopSearch st"
proof (induction "nat (MAX_PLY env - ply)" arbitrary: st alpha beta ply)
  case 0
  then show ?case
    by (subst qsearch.simps) simp
next
  case (Suc k)
  have "k = nat (MAX_PLY env - (ply + 1))"
    using Suc.hyps(2) by simp
  from Suc.hyps(1) [OF this]
  have child: "\<And>st a b. stopSearch (snd (qsearch env st a b (ply + 1))) = stopSearch st" .
  show ?case
    by (subst qsearch.simps) (simp add: Let_def qsearch_moves_stop [OF child])
qed

text \<open>
  One pass of the move loop of \<^verbatim>\<open>alphabeta\<close>: the move \<open>m\<close> is selected and searched
  to the value \<open>v\<close>, and \<^verbatim>\<open>should_stop\<close> answers \<open>stop\<close>. A yes is the
  \<^verbatim>\<open>return bestScore\<close> in the loop.
\<close>

lemma alphabeta_moves_step:
  assumes "i < length moveList"
    and "ml = swap moveList i (select_best scores i (length moveList))"
    and "sc = swap scores i (select_best scores i (length moveList))"
    and "m = ml ! i"
    and "alphabeta env (st\<lparr>pos := do_move env (pos st) m\<rparr>) (depth - 1) (- beta) (- alpha)
           (ply + 1) True = (v, st1)"
    and "should_stop env (st1\<lparr>pos := undo_move env (pos st1) m\<rparr>) = (stop, st3)"
  shows "alphabeta_moves env st depth alpha beta ply moveList scores i bestScore bestMove
    = (if stop then Return bestScore st3
       else if - v > bestScore then
         (if - v > alpha then
            (if - v \<ge> beta then Fall_through (- v) m (cutoff_update env st3 m depth ply)
             else alphabeta_moves env st3 depth (- v) beta ply ml sc (i + 1) (- v) m)
          else alphabeta_moves env st3 depth alpha beta ply ml sc (i + 1) (- v) m)
       else alphabeta_moves env st3 depth alpha beta ply ml sc (i + 1) bestScore bestMove)"
  using assms by (subst alphabeta_moves.simps) (simp add: Let_def)

text \<open>
  How the move loop is left tells the stop flag: after \<^verbatim>\<open>return bestScore\<close> it is
  set; at the end of the loop or after \<^verbatim>\<open>break\<close> it is not, unless the loop was
  entered at its end with the flag set.
\<close>

lemma alphabeta_moves_exit:
  assumes "alphabeta_moves env st depth alpha beta ply moveList scores i bestScore bestMove = r"
  shows "case r of
           Return v st' \<Rightarrow> stopSearch st'
         | Fall_through bs bm st' \<Rightarrow> stopSearch st' \<longrightarrow> \<not> i < length moveList \<and> stopSearch st"
  using assms
proof (induction "length moveList - i" arbitrary: st alpha moveList scores i bestScore bestMove)
  case 0
  then show ?case
    by (subst (asm) alphabeta_moves.simps) auto
next
  case (Suc k)
  let ?best = "select_best scores i (length moveList)"
  let ?ml = "swap moveList i ?best"
  let ?sc = "swap scores i ?best"
  have len: "k = length ?ml - (i + 1)" and lt: "i < length moveList"
    using Suc.hyps(2) by simp_all
  note IH = Suc.hyps(1) [OF len]
  let ?m = "?ml ! i"
  obtain v st1 where child:
    "alphabeta env (st\<lparr>pos := do_move env (pos st) ?m\<rparr>) (depth - 1) (- beta) (- alpha)
       (ply + 1) True = (v, st1)"
    by (cases "alphabeta env (st\<lparr>pos := do_move env (pos st) ?m\<rparr>) (depth - 1) (- beta)
                 (- alpha) (ply + 1) True")
  let ?st2 = "st1\<lparr>pos := undo_move env (pos st1) ?m\<rparr>"
  obtain stop st3 where ss: "should_stop env ?st2 = (stop, st3)"
    by (cases "should_stop env ?st2")
  have stop: "stop = stopSearch st3"
    using should_stop_fst [of env ?st2] ss by simp
  note unfold = alphabeta_moves_step [OF lt refl refl refl child ss, of bestScore bestMove]
  show ?case
  proof (cases stop)
    case True
    then show ?thesis using Suc.prems unfold stop by auto
  next
    case False
    then have ns: "\<not> stopSearch st3" using stop by simp
    have rec: ?thesis
      if "r = alphabeta_moves env st3 depth a beta ply ?ml ?sc (i + 1) bs bm" for a bs bm
      using IH [OF that [symmetric]] ns by (cases r) auto
    have r_eq: "r = (if - v > bestScore then
         (if - v > alpha then
            (if - v \<ge> beta then Fall_through (- v) ?m (cutoff_update env st3 ?m depth ply)
             else alphabeta_moves env st3 depth (- v) beta ply ?ml ?sc (i + 1) (- v) ?m)
          else alphabeta_moves env st3 depth alpha beta ply ?ml ?sc (i + 1) (- v) ?m)
       else alphabeta_moves env st3 depth alpha beta ply ?ml ?sc (i + 1) bestScore bestMove)"
      using Suc.prems unfold False by simp
    show ?thesis
    proof (cases "- v > bestScore")
      case False
      then show ?thesis using r_eq by (intro rec) simp
    next
      case True
      note better = this
      show ?thesis
      proof (cases "- v > alpha")
        case False
        then show ?thesis using r_eq better by (intro rec) simp
      next
        case True
        note raised = this
        show ?thesis
        proof (cases "- v \<ge> beta")
          case False
          then show ?thesis using r_eq better raised by (intro rec) simp
        next
          case True
          then have "r = Fall_through (- v) ?m (cutoff_update env st3 ?m depth ply)"
            using r_eq better raised by simp
          then show ?thesis using ns by simp
        qed
      qed
    qed
  qed
qed


section \<open>The probe and the store of the transposition table\<close>

lemma at_probe_keeps [simp]:
  "pos (at_probe env st) = pos st"
  "tt (at_probe env st) = tt st"
  "stopSearch (at_probe env st) = fst (should_stop env st)"
  by (simp_all add: at_probe_def should_stop_fst)

lemma alphabeta_at_probe:
  assumes "reaches_probe env st depth ply"
  shows "alphabeta env st depth alpha beta ply doNull =
     (case probe_cutoff (tt st (unat (key env (pos st)) mod 2 ^ 20)) (key env (pos st))
             depth alpha beta of
        Some v \<Rightarrow> (v, at_probe env st)
      | None \<Rightarrow>
          alphabeta_search env (at_probe env st) depth alpha beta ply doNull
            (checkers env (pos st)) alpha (key env (pos st))
            (unat (key env (pos st)) mod 2 ^ 20)
            (probe_move env (tt st (unat (key env (pos st)) mod 2 ^ 20)) (key env (pos st))))"
  using assms
  by (subst alphabeta.simps)
    (auto simp: reaches_probe_def at_probe_def Let_def case_prod_beta TT_SIZE_def
      split: option.splits)

lemma alphabeta_search_unfold:
  "alphabeta_search env st depth alpha beta ply doNull inCheck originalAlpha posKey ttIndex ttMove =
     (let np = null_move_pruning env st depth beta ply doNull inCheck;
          st1 = snd np;
          moveList = generate_LEGAL env (pos st1)
      in if fst np then (beta, st1)
         else if moveList = []
         then (if inCheck then mated_in env ply else VALUE_DRAW, st1)
         else case alphabeta_moves env st1 depth alpha beta ply moveList
                     (map (\<lambda>m. score_move env st1 m ttMove ply) moveList)
                     0 (- VALUE_INFINITE env) (Move_none env) of
                Return v st2 \<Rightarrow> (v, st2)
              | Fall_through bestScore bestMove st2 \<Rightarrow>
                  (bestScore,
                   tt_store st2 ttIndex posKey bestMove bestScore depth originalAlpha beta))"
  by (subst alphabeta_search.simps) (simp add: Let_def case_prod_beta)

text \<open>
  C9. In a call that reaches the probe and finds the key of the position in its slot, the
  stored depth decides: when it is at least the requested depth, an exact entry returns
  its value, a lower bound with a value of at least \<open>beta\<close> returns \<open>beta\<close>, an upper
  bound with a value of at most \<open>alpha\<close> returns \<open>alpha\<close>; in every other case, and
  always when the stored depth is smaller, the call goes on with the search, to which
  the entry gives its move and nothing else.
\<close>

theorem alphabeta_probe_depth:
  assumes "reaches_probe env st depth ply"
    and "tt_key (tt st (unat (key env (pos st)) mod 2 ^ 20)) = key env (pos st)"
  shows "alphabeta env st depth alpha beta ply doNull =
     (let tte = tt st (unat (key env (pos st)) mod 2 ^ 20);
          proceed = alphabeta_search env (at_probe env st) depth alpha beta ply doNull
                      (checkers env (pos st)) alpha (key env (pos st))
                      (unat (key env (pos st)) mod 2 ^ 20) (tt_best_move tte)
      in if tt_depth tte \<ge> depth then
           (if tt_flag tte = 0 then (tt_value tte, at_probe env st)
            else if tt_flag tte = 1 \<and> tt_value tte \<ge> beta then (beta, at_probe env st)
            else if tt_flag tte = 2 \<and> tt_value tte \<le> alpha then (alpha, at_probe env st)
            else proceed)
         else proceed)"
  using assms(2)
  by (simp add: alphabeta_at_probe [OF assms(1)] probe_cutoff_def probe_move_def Let_def)

text \<open>
  C5. A call that leaves its move loop at the end or by \<^verbatim>\<open>break\<close> returns
  \<^verbatim>\<open>bestScore\<close> and overwrites the slot \<open>key mod 2^20\<close>, whatever it holds, with the
  key, \<^verbatim>\<open>bestMove\<close>, \<^verbatim>\<open>bestScore\<close>, the depth and a flag computed from the \<open>alpha\<close>
  the call was entered with: 2 (upper) if \<open>bestScore \<le> alpha\<close>, else 1 (lower) if
  \<open>bestScore \<ge> beta\<close>, else 0 (exact). It is the only store of \<^verbatim>\<open>alphabeta\<close>.
\<close>

theorem alphabeta_store:
  assumes "reaches_probe env st depth ply"
    and "probe_cutoff (tt st (unat (key env (pos st)) mod 2 ^ 20)) (key env (pos st))
           depth alpha beta = None"
    and "null_move_pruning env (at_probe env st) depth beta ply doNull (checkers env (pos st))
         = (False, st1)"
    and "generate_LEGAL env (pos st1) \<noteq> []"
    and "alphabeta_moves env st1 depth alpha beta ply (generate_LEGAL env (pos st1))
           (map (\<lambda>m. score_move env st1 m
                        (probe_move env (tt st (unat (key env (pos st)) mod 2 ^ 20))
                           (key env (pos st))) ply)
              (generate_LEGAL env (pos st1)))
           0 (- VALUE_INFINITE env) (Move_none env)
         = Fall_through bestScore bestMove st2"
  shows "alphabeta env st depth alpha beta ply doNull =
           (bestScore,
            st2\<lparr>tt := (tt st2)
              (unat (key env (pos st)) mod 2 ^ 20 :=
                 \<lparr>tt_key = key env (pos st), tt_best_move = bestMove, tt_value = bestScore,
                  tt_depth = depth,
                  tt_flag = (if bestScore \<le> alpha then 2
                             else if bestScore \<ge> beta then 1
                             else 0)\<rparr>)\<rparr>)"
  using assms(2-5)
  by (simp add: alphabeta_at_probe [OF assms(1)] alphabeta_search_unfold tt_store_def)

lemma null_move_pruning_state:
  "snd (null_move_pruning env st depth beta ply doNull inCheck) =
     (if doNull \<and> \<not> inCheck \<and> depth \<ge> 3 \<and> ply > 0 then
        let child = snd (alphabeta env (st\<lparr>pos := do_null_move env (pos st)\<rparr>) (depth - 3)
                           (- beta) (- beta + 1) (ply + 1) False)
        in child\<lparr>pos := undo_null_move env (pos child)\<rparr>
      else st)"
  by (subst null_move_pruning.simps) (simp add: Let_def case_prod_beta)

text \<open>
  One pass of the loop, for the list of the states that the searches of its moves leave.
\<close>

lemma searched_children_step:
  assumes "i < length moveList"
    and "ml = swap moveList i (select_best scores i (length moveList))"
    and "sc = swap scores i (select_best scores i (length moveList))"
    and "m = ml ! i"
    and "alphabeta env (st\<lparr>pos := do_move env (pos st) m\<rparr>) (depth - 1) (- beta) (- alpha)
           (ply + 1) True = (v, st1)"
    and "should_stop env (st1\<lparr>pos := undo_move env (pos st1) m\<rparr>) = (stop, st3)"
  shows "searched_children env st depth alpha beta ply moveList scores i bestScore
    = st1\<lparr>pos := undo_move env (pos st1) m\<rparr> #
      (if stop then []
       else if - v > bestScore then
         (if - v > alpha then
            (if - v \<ge> beta then []
             else searched_children env st3 depth (- v) beta ply ml sc (i + 1) (- v))
          else searched_children env st3 depth alpha beta ply ml sc (i + 1) (- v))
       else searched_children env st3 depth alpha beta ply ml sc (i + 1) bestScore)"
  using assms by (subst searched_children.simps) (simp add: Let_def)

text \<open>
  Every state of the list is the state returned by a search of depth \<open>depth - 1\<close> at the
  next ply, with the move taken back.
\<close>

lemma searched_children_are_searches:
  assumes "child \<in> set (searched_children env st depth alpha beta ply moveList scores i bestScore)"
  shows "\<exists>st_in a m. child =
           (snd (alphabeta env st_in (depth - 1) (- beta) (- a) (ply + 1) True))
             \<lparr>pos := undo_move env
                      (pos (snd (alphabeta env st_in (depth - 1) (- beta) (- a) (ply + 1) True)))
                      m\<rparr>"
  using assms
proof (induction "length moveList - i" arbitrary: st alpha moveList scores i bestScore)
  case 0
  then show ?case
    by (subst (asm) searched_children.simps) simp
next
  case (Suc k)
  let ?best = "select_best scores i (length moveList)"
  let ?ml = "swap moveList i ?best"
  let ?sc = "swap scores i ?best"
  have len: "k = length ?ml - (i + 1)" and lt: "i < length moveList"
    using Suc.hyps(2) by simp_all
  note IH = Suc.hyps(1) [OF len]
  let ?m = "?ml ! i"
  let ?in = "st\<lparr>pos := do_move env (pos st) ?m\<rparr>"
  obtain v st1 where child:
    "alphabeta env ?in (depth - 1) (- beta) (- alpha) (ply + 1) True = (v, st1)"
    by (cases "alphabeta env ?in (depth - 1) (- beta) (- alpha) (ply + 1) True")
  let ?st2 = "st1\<lparr>pos := undo_move env (pos st1) ?m\<rparr>"
  obtain stop st3 where ss: "should_stop env ?st2 = (stop, st3)"
    by (cases "should_stop env ?st2")
  note step = searched_children_step [OF lt refl refl refl child ss, of bestScore]
  have "child = ?st2
        \<or> (\<exists>a bs. child \<in> set (searched_children env st3 depth a beta ply ?ml ?sc (i + 1) bs))"
    using Suc.prems unfolding step by (auto split: if_splits)
  then show ?case
  proof
    assume "child = ?st2"
    then have "child =
           (snd (alphabeta env ?in (depth - 1) (- beta) (- alpha) (ply + 1) True))
             \<lparr>pos := undo_move env
                      (pos (snd (alphabeta env ?in (depth - 1) (- beta) (- alpha) (ply + 1)
                                   True)))
                      ?m\<rparr>"
      using child by simp
    then show ?thesis by blast
  next
    assume "\<exists>a bs. child \<in> set (searched_children env st3 depth a beta ply ?ml ?sc (i + 1) bs)"
    then obtain a bs
      where "child \<in> set (searched_children env st3 depth a beta ply ?ml ?sc (i + 1) bs)"
      by blast
    from IH [OF this] show ?thesis .
  qed
qed

text \<open>
  The state of the \<^verbatim>\<open>return bestScore\<close> in the loop is the state that the search of
  the last move left, passed through the \<^verbatim>\<open>should_stop\<close> that answered yes: the clock
  has been read and the flag is set, nothing else has changed.
\<close>

lemma alphabeta_moves_return_state:
  assumes "alphabeta_moves env st depth alpha beta ply moveList scores i bestScore bestMove
           = Return v st'"
  shows "searched_children env st depth alpha beta ply moveList scores i bestScore \<noteq> []
         \<and> st' = snd (should_stop env
                        (last (searched_children env st depth alpha beta ply moveList scores i
                                 bestScore)))"
  using assms
proof (induction "length moveList - i" arbitrary: st alpha moveList scores i bestScore bestMove)
  case 0
  then show ?case
    by (subst (asm) alphabeta_moves.simps) simp
next
  case (Suc k)
  let ?best = "select_best scores i (length moveList)"
  let ?ml = "swap moveList i ?best"
  let ?sc = "swap scores i ?best"
  have len: "k = length ?ml - (i + 1)" and lt: "i < length moveList"
    using Suc.hyps(2) by simp_all
  note IH = Suc.hyps(1) [OF len]
  let ?m = "?ml ! i"
  obtain w st1 where child:
    "alphabeta env (st\<lparr>pos := do_move env (pos st) ?m\<rparr>) (depth - 1) (- beta) (- alpha)
       (ply + 1) True = (w, st1)"
    by (cases "alphabeta env (st\<lparr>pos := do_move env (pos st) ?m\<rparr>) (depth - 1) (- beta)
                 (- alpha) (ply + 1) True")
  let ?st2 = "st1\<lparr>pos := undo_move env (pos st1) ?m\<rparr>"
  obtain stop st3 where ss: "should_stop env ?st2 = (stop, st3)"
    by (cases "should_stop env ?st2")
  note loop = alphabeta_moves_step [OF lt refl refl refl child ss, of bestScore bestMove]
  note children = searched_children_step [OF lt refl refl refl child ss, of bestScore]
  show ?case
  proof (cases stop)
    case True
    then have "st' = st3"
      using Suc.prems loop by simp
    then show ?thesis
      using True ss unfolding children by simp
  next
    case False
    have rec: ?thesis
      if "alphabeta_moves env st3 depth a beta ply ?ml ?sc (i + 1) bs bm = Return v st'"
        and "searched_children env st depth alpha beta ply moveList scores i bestScore
             = ?st2 # searched_children env st3 depth a beta ply ?ml ?sc (i + 1) bs"
      for a bs bm
      using IH [OF that(1)] unfolding that(2) by simp
    show ?thesis
    proof (cases "- w > bestScore")
      case False
      then show ?thesis
        using Suc.prems loop children \<open>\<not> stop\<close> by (intro rec) simp_all
    next
      case True
      note better = this
      show ?thesis
      proof (cases "- w > alpha")
        case False
        then show ?thesis
          using Suc.prems loop children \<open>\<not> stop\<close> better by (intro rec) simp_all
      next
        case True
        note raised = this
        show ?thesis
        proof (cases "- w \<ge> beta")
          case False
          then show ?thesis
            using Suc.prems loop children \<open>\<not> stop\<close> better raised by (intro rec) simp_all
        next
          case True
          then show ?thesis
            using Suc.prems loop \<open>\<not> stop\<close> better raised by simp
        qed
      qed
    qed
  qed
qed

lemma alphabeta_stop_on_entry:
  assumes "fst (should_stop env st)"
  shows "alphabeta env st depth alpha beta ply doNull = (VALUE_ZERO, snd (should_stop env st))"
  using assms by (subst alphabeta.simps) (simp add: case_prod_beta)

text \<open>
  C8. The stop flag, once set, stays set, and \<^verbatim>\<open>should_stop\<close> answers with it. A call
  that returns with the flag set has ended in one of four ways, none of which stores:
  \<^item> at its entry test, with \<open>VALUE_ZERO\<close> and the table it was given;
  \<^item> by the \<^verbatim>\<open>return beta\<close> of the null move, in the state that the null-move block
    left: the state of the null-move search with the null move taken back;
  \<^item> by the return for a position without moves, in that same state;
  \<^item> by the \<^verbatim>\<open>return bestScore\<close> that follows a stop in the move loop, in the state
    that the search of the last move left, passed through \<^verbatim>\<open>should_stop\<close>: its
    transposition table is the table that this search of a child left.
\<close>

theorem alphabeta_stopped_no_store:
  assumes "alphabeta env st depth alpha beta ply doNull = (v, st')"
    and "stopSearch st'"
  shows "(fst (should_stop env st) \<and> v = VALUE_ZERO \<and> st' = snd (should_stop env st)
          \<and> tt st' = tt st)
       \<or> (reaches_probe env st depth ply
          \<and> probe_cutoff (tt st (unat (key env (pos st)) mod 2 ^ 20)) (key env (pos st))
               depth alpha beta = None
          \<and> (let np = null_move_pruning env (at_probe env st) depth beta ply doNull
                         (checkers env (pos st));
                  st1 = snd np;
                  moveList = generate_LEGAL env (pos st1);
                  ttMove = probe_move env (tt st (unat (key env (pos st)) mod 2 ^ 20))
                             (key env (pos st));
                  scores = map (\<lambda>m. score_move env st1 m ttMove ply) moveList;
                  children = searched_children env st1 depth alpha beta ply moveList scores
                               0 (- VALUE_INFINITE env)
              in st1 =
                   (if doNull \<and> \<not> checkers env (pos st) \<and> depth \<ge> 3 \<and> ply > 0 then
                      let child = snd (alphabeta env
                                         ((at_probe env st)\<lparr>pos := do_null_move env (pos st)\<rparr>)
                                         (depth - 3) (- beta) (- beta + 1) (ply + 1) False)
                      in child\<lparr>pos := undo_null_move env (pos child)\<rparr>
                    else at_probe env st)
                 \<and> (if fst np then v = beta \<and> st' = st1
                     else if moveList = [] then st' = st1
                     else alphabeta_moves env st1 depth alpha beta ply moveList scores
                            0 (- VALUE_INFINITE env) (Move_none env)
                          = Return v st'
                          \<and> children \<noteq> []
                          \<and> st' = snd (should_stop env (last children))
                          \<and> tt st' = tt (last children))))"
proof (cases "fst (should_stop env st)")
  case True
  then show ?thesis
    using assms(1) by (auto simp: alphabeta_stop_on_entry)
next
  case False
  note running = this
  let ?st0 = "snd (should_stop env st)"
  have ns: "\<not> stopSearch ?st0"
    using False by (simp add: should_stop_fst)
  show ?thesis
  proof (cases "reaches_probe env st depth ply")
    case False
    have "\<not> stopSearch st'"
    proof (cases "ply > MAX_PLY env - 1")
      case True
      then have "st' = ?st0"
        using assms(1) running by (subst (asm) alphabeta.simps) (auto simp: case_prod_beta)
      then show ?thesis using ns by simp
    next
      case False
      note in_range = this
      show ?thesis
      proof (cases "depth \<le> 0")
        case True
        then have "(v, st') = qsearch env ?st0 alpha beta ply"
          using assms(1) running in_range
          by (subst (asm) alphabeta.simps) (auto simp: case_prod_beta)
        then have "st' = snd (qsearch env ?st0 alpha beta ply)"
          by (metis snd_conv)
        then show ?thesis using ns by (simp add: qsearch_stop)
      next
        case False
        then have "st' = ?st0\<lparr>nodeCount := nodeCount ?st0 + 1\<rparr>"
          using assms(1) running in_range \<open>\<not> reaches_probe env st depth ply\<close>
          by (subst (asm) alphabeta.simps)
            (auto simp: case_prod_beta reaches_probe_def Let_def)
        then show ?thesis using ns by simp
      qed
    qed
    then show ?thesis using assms(2) by simp
  next
    case True
    note probe = alphabeta_at_probe [OF True, of alpha beta doNull]
    let ?key = "key env (pos st)"
    let ?idx = "unat ?key mod 2 ^ 20"
    have nsp: "\<not> stopSearch (at_probe env st)"
      using running by simp
    show ?thesis
    proof (cases "probe_cutoff (tt st ?idx) ?key depth alpha beta")
      case (Some c)
      then have "st' = at_probe env st"
        using assms(1) probe by simp
      then show ?thesis using assms(2) nsp by simp
    next
      case None
      let ?np = "null_move_pruning env (at_probe env st) depth beta ply doNull
                   (checkers env (pos st))"
      let ?st1 = "snd ?np"
      let ?ml = "generate_LEGAL env (pos ?st1)"
      let ?ttMove = "probe_move env (tt st ?idx) ?key"
      let ?r = "alphabeta_moves env ?st1 depth alpha beta ply ?ml
                  (map (\<lambda>m. score_move env ?st1 m ?ttMove ply) ?ml)
                  0 (- VALUE_INFINITE env) (Move_none env)"
      have search: "alphabeta_search env (at_probe env st) depth alpha beta ply doNull
                      (checkers env (pos st)) alpha ?key ?idx ?ttMove = (v, st')"
        using assms(1) probe None by simp
      have body: "(v, st') =
          (if fst ?np then (beta, ?st1)
           else if ?ml = [] then (if checkers env (pos st) then mated_in env ply else VALUE_DRAW, ?st1)
           else case ?r of
                  Return v st \<Rightarrow> (v, st)
                | Fall_through bestScore bestMove st \<Rightarrow>
                    (bestScore, tt_store st ?idx ?key bestMove bestScore depth alpha beta))"
        unfolding search [symmetric] by (simp only: alphabeta_search_unfold Let_def)
      have "fst ?np \<or> ?ml = [] \<or> ?r = Return v st'"
      proof (cases ?r)
        case (Return v' st'')
        then show ?thesis using body by (auto split: if_splits)
      next
        case (Fall_through bs bm st'')
        have "fst ?np \<or> ?ml = []"
        proof (rule ccontr)
          assume "\<not> (fst ?np \<or> ?ml = [])"
          then have "st' = tt_store st'' ?idx ?key bm bs depth alpha beta" and "?ml \<noteq> []"
            using body Fall_through by simp_all
          moreover have "stopSearch st'' \<longrightarrow> \<not> 0 < length ?ml \<and> stopSearch ?st1"
            using alphabeta_moves_exit [OF Fall_through] by simp
          ultimately show False using assms(2) by simp
        qed
        then show ?thesis by blast
      qed
      then have exits:
        "if fst ?np then v = beta \<and> st' = ?st1
         else if ?ml = [] then st' = ?st1
         else ?r = Return v st'"
        using body by (auto split: if_splits)
      let ?cs = "searched_children env ?st1 depth alpha beta ply ?ml
                   (map (\<lambda>m. score_move env ?st1 m ?ttMove ply) ?ml)
                   0 (- VALUE_INFINITE env)"
      have returned: "?cs \<noteq> [] \<and> st' = snd (should_stop env (last ?cs))
                      \<and> tt st' = tt (last ?cs)"
        if "?r = Return v st'"
        using alphabeta_moves_return_state [OF that] by simp
      have null: "?st1 =
          (if doNull \<and> \<not> checkers env (pos st) \<and> depth \<ge> 3 \<and> ply > 0 then
             let child = snd (alphabeta env
                                ((at_probe env st)\<lparr>pos := do_null_move env (pos st)\<rparr>)
                                (depth - 3) (- beta) (- beta + 1) (ply + 1) False)
             in child\<lparr>pos := undo_null_move env (pos child)\<rparr>
           else at_probe env st)"
        by (simp add: null_move_pruning_state)
      have "if fst ?np then v = beta \<and> st' = ?st1
            else if ?ml = [] then st' = ?st1
            else ?r = Return v st' \<and> ?cs \<noteq> []
                 \<and> st' = snd (should_stop env (last ?cs)) \<and> tt st' = tt (last ?cs)"
        using exits returned by (simp split: if_splits)
      with null True None show ?thesis
        unfolding Let_def by blast
    qed
  qed
qed

text \<open>
  In \<open>probe_state\<close> the slot of the root holds an exact entry of depth 1 and value
  12345. A call of depth 2 searches and returns the mate score; a call of depth 1 returns
  the stored value.
\<close>

lemma toy_reaches_probe:
  "reaches_probe toy_env probe_state 2 0"
  "reaches_probe toy_env toy_state 2 0"
  by (simp_all add: toy_eval)

lemma toy_probe_values:
  "fst (alphabeta toy_env probe_state 2 (- 32001) 32001 0 True) = 31999"
  "fst (alphabeta toy_env probe_state 1 (- 32001) 32001 0 True) = 12345"
  by (simp_all add: toy_eval)

theorem alphabeta_probe_depth_witness:
  "reaches_probe toy_env probe_state 2 0
   \<and> tt_key (tt probe_state (unat (key toy_env (pos probe_state)) mod 2 ^ 20))
       = key toy_env (pos probe_state)
   \<and> tt_depth (tt probe_state (unat (key toy_env (pos probe_state)) mod 2 ^ 20)) = 1
   \<and> tt_value (tt probe_state (unat (key toy_env (pos probe_state)) mod 2 ^ 20)) = 12345
   \<and> fst (alphabeta toy_env probe_state 2 (- 32001) 32001 0 True) = 31999"
  using alphabeta_probe_depth [of toy_env probe_state 2 0 "- 32001" 32001 True]
    toy_reaches_probe(1) toy_probe_values(1)
  by (simp add: probe_state_def toy_state_def)

lemma toy_store_path:
  "probe_cutoff (tt toy_state (unat (key toy_env (pos toy_state)) mod 2 ^ 20))
     (key toy_env (pos toy_state)) 2 (- 32001) 32001 = None"
  "null_move_pruning toy_env (at_probe toy_env toy_state) 2 32001 0 True
     (checkers toy_env (pos toy_state)) = (False, at_probe toy_env toy_state)"
  "generate_LEGAL toy_env (pos (at_probe toy_env toy_state)) \<noteq> []"
  "alphabeta_moves toy_env (at_probe toy_env toy_state) 2 (- 32001) 32001 0
     (generate_LEGAL toy_env (pos (at_probe toy_env toy_state)))
     (map (\<lambda>m. score_move toy_env (at_probe toy_env toy_state) m
                  (probe_move toy_env
                     (tt toy_state (unat (key toy_env (pos toy_state)) mod 2 ^ 20))
                     (key toy_env (pos toy_state))) 0)
        (generate_LEGAL toy_env (pos (at_probe toy_env toy_state))))
     0 (- VALUE_INFINITE toy_env) (Move_none toy_env)
   = Fall_through 31999 20
       (final_state
          (alphabeta_moves toy_env (at_probe toy_env toy_state) 2 (- 32001) 32001 0
             [10, 20] [0, 0] 0 (- 32001) 0))"
  by (simp_all add: toy_eval)

text \<open>
  In the example game, searched to depth 2 with the full window, the move 20 mates and
  the loop raises its \<open>alpha\<close> to the best score 31999. The entry stored for the root
  is exact: its flag comes from the \<open>alpha\<close> of the call, - 32001, and not from the
  raised one, which would make it an upper bound.
\<close>

theorem alphabeta_store_witness:
  "reaches_probe toy_env toy_state 2 0
   \<and> probe_cutoff (tt toy_state (unat (key toy_env (pos toy_state)) mod 2 ^ 20))
        (key toy_env (pos toy_state)) 2 (- 32001) 32001 = None
   \<and> null_move_pruning toy_env (at_probe toy_env toy_state) 2 32001 0 True
        (checkers toy_env (pos toy_state)) = (False, at_probe toy_env toy_state)
   \<and> generate_LEGAL toy_env (pos (at_probe toy_env toy_state)) \<noteq> []
   \<and> alphabeta_moves toy_env (at_probe toy_env toy_state) 2 (- 32001) 32001 0
        (generate_LEGAL toy_env (pos (at_probe toy_env toy_state)))
        (map (\<lambda>m. score_move toy_env (at_probe toy_env toy_state) m
                     (probe_move toy_env
                        (tt toy_state (unat (key toy_env (pos toy_state)) mod 2 ^ 20))
                        (key toy_env (pos toy_state))) 0)
           (generate_LEGAL toy_env (pos (at_probe toy_env toy_state))))
        0 (- VALUE_INFINITE toy_env) (Move_none toy_env)
       = Fall_through 31999 20
           (final_state
              (alphabeta_moves toy_env (at_probe toy_env toy_state) 2 (- 32001) 32001 0
                 [10, 20] [0, 0] 0 (- 32001) 0))
   \<and> fst (alphabeta toy_env toy_state 2 (- 32001) 32001 0 True) = 31999
   \<and> tt (snd (alphabeta toy_env toy_state 2 (- 32001) 32001 0 True)) 1
       = \<lparr>tt_key = 1, tt_best_move = 20, tt_value = 31999, tt_depth = 2, tt_flag = 0\<rparr>"
proof -
  have slot: "unat (key toy_env (pos toy_state)) mod 2 ^ 20 = 1"
    and key: "key toy_env (pos toy_state) = 1"
    by (simp_all add: toy_state_def)
  from alphabeta_store [OF toy_reaches_probe(2) toy_store_path]
  have "fst (alphabeta toy_env toy_state 2 (- 32001) 32001 0 True) = 31999
        \<and> tt (snd (alphabeta toy_env toy_state 2 (- 32001) 32001 0 True)) 1
            = \<lparr>tt_key = 1, tt_best_move = 20, tt_value = 31999, tt_depth = 2, tt_flag = 0\<rparr>"
    unfolding slot key by simp
  then show ?thesis
    using toy_reaches_probe(2) toy_store_path by blast
qed

text \<open>
  In \<open>stop_state\<close> the call of depth 2 at the root searches the move 10 to the end
  (the search of that child stores its entry in slot 11) and has \<^verbatim>\<open>bestScore\<close> - 70 when
  the search of the move 20 counts the node at which the clock is read. \<^verbatim>\<open>should_stop\<close>
  then answers yes; the call returns the partial score - 70 with the flag set. The slot 1
  of the root position is as it was, and the table is the one that the search of the
  move 20 left.
\<close>

lemma toy_stopped_call:
  "stopSearch (snd (alphabeta toy_env stop_state 2 (- 32001) 32001 0 True))"
  "fst (alphabeta toy_env stop_state 2 (- 32001) 32001 0 True) = - 70"
  "tt (snd (alphabeta toy_env stop_state 2 (- 32001) 32001 0 True)) 1 = tt stop_state 1"
  "tt (snd (alphabeta toy_env stop_state 2 (- 32001) 32001 0 True)) 11
   = \<lparr>tt_key = 11, tt_best_move = 30, tt_value = 70, tt_depth = 1, tt_flag = 0\<rparr>"
  by (simp_all add: toy_eval)

lemma toy_stopped_children:
  "length (searched_children toy_env (at_probe toy_env stop_state) 2 (- 32001) 32001 0
             [10, 20] [0, 0] 0 (- 32001)) = 2"
  "tt (last (searched_children toy_env (at_probe toy_env stop_state) 2 (- 32001) 32001 0
               [10, 20] [0, 0] 0 (- 32001))) 1 = tt stop_state 1"
  "tt (last (searched_children toy_env (at_probe toy_env stop_state) 2 (- 32001) 32001 0
               [10, 20] [0, 0] 0 (- 32001))) 11
   = \<lparr>tt_key = 11, tt_best_move = 30, tt_value = 70, tt_depth = 1, tt_flag = 0\<rparr>"
  by (simp_all add: toy_eval)

theorem alphabeta_stopped_no_store_witness:
  "alphabeta toy_env stop_state 2 (- 32001) 32001 0 True
     = (fst (alphabeta toy_env stop_state 2 (- 32001) 32001 0 True),
        snd (alphabeta toy_env stop_state 2 (- 32001) 32001 0 True))
   \<and> stopSearch (snd (alphabeta toy_env stop_state 2 (- 32001) 32001 0 True))
   \<and> fst (alphabeta toy_env stop_state 2 (- 32001) 32001 0 True) = - 70
   \<and> tt (snd (alphabeta toy_env stop_state 2 (- 32001) 32001 0 True)) 1 = tt stop_state 1
   \<and> tt (snd (alphabeta toy_env stop_state 2 (- 32001) 32001 0 True)) 11
       = \<lparr>tt_key = 11, tt_best_move = 30, tt_value = 70, tt_depth = 1, tt_flag = 0\<rparr>"
proof -
  let ?r = "alphabeta toy_env stop_state 2 (- 32001) 32001 0 True"
  have pair: "?r = (fst ?r, snd ?r)"
    by simp
  from alphabeta_stopped_no_store [OF pair toy_stopped_call(1)] pair toy_stopped_call
  show ?thesis by blast
qed

section \<open>The iterative-deepening driver\<close>

lemma root_moves_exit:
  assumes "root_moves env st depth alpha beta rootMoves scores i bestMove bestScore
           = (i', bestMove', bestScore', rootMoves', st')"
  shows "length rootMoves' = length rootMoves
         \<and> (i \<le> length rootMoves \<longrightarrow> i' \<le> length rootMoves)
         \<and> (i' < length rootMoves \<longrightarrow> stopSearch st')"
  using assms
proof (induction "length rootMoves - i" arbitrary: st alpha rootMoves scores i bestMove bestScore)
  case 0
  then show ?case
    by (subst (asm) root_moves.simps) auto
next
  case (Suc k)
  let ?best = "select_best scores i (length rootMoves)"
  let ?rm = "swap rootMoves i ?best"
  let ?sc = "swap scores i ?best"
  have len: "k = length ?rm - (i + 1)" and lt: "i < length rootMoves"
    using Suc.hyps(2) by simp_all
  note IH = Suc.hyps(1) [OF len]
  let ?m = "?rm ! i"
  obtain v st1 where child:
    "alphabeta env (st\<lparr>pos := do_move env (pos st) ?m\<rparr>) (depth - 1) (- beta) (- alpha) 1 True
     = (v, st1)"
    by (cases "alphabeta env (st\<lparr>pos := do_move env (pos st) ?m\<rparr>) (depth - 1) (- beta)
                 (- alpha) 1 True")
  let ?st2 = "st1\<lparr>pos := undo_move env (pos st1) ?m\<rparr>"
  obtain stop st3 where ss: "should_stop env ?st2 = (stop, st3)"
    by (cases "should_stop env ?st2")
  have stop: "stop = stopSearch st3"
    using should_stop_fst [of env ?st2] ss by simp
  have unfold: "root_moves env st depth alpha beta rootMoves scores i bestMove bestScore
    = (if stop then (i, bestMove, bestScore, ?rm, st3)
       else if - v > bestScore
       then root_moves env st3 depth (if - v > alpha then - v else alpha) beta ?rm ?sc (i + 1)
              ?m (- v)
       else root_moves env st3 depth alpha beta ?rm ?sc (i + 1) bestMove bestScore)"
    using lt child ss by (subst root_moves.simps) (simp add: Let_def)
  show ?case
  proof (cases stop)
    case True
    then show ?thesis using Suc.prems unfold stop lt by auto
  next
    case False
    have rec: ?thesis
      if "root_moves env st3 depth a beta ?rm ?sc (i + 1) bm bs
          = (i', bestMove', bestScore', rootMoves', st')" for a bm bs
      using IH [OF that] lt by auto
    show ?thesis
    proof (cases "- v > bestScore")
      case True
      then show ?thesis using Suc.prems unfold False by (intro rec) simp
    next
      case gt: False
      then show ?thesis using Suc.prems unfold False by (intro rec) simp
    qed
  qed
qed


lemma iterative_deepening_unfold:
  "iterative_deepening env st maxDepth rootMoves prevBestMove result depth =
     (if depth \<le> maxDepth \<and> depth \<le> 20 then
        if fst (should_stop env st) then (result, snd (should_stop env st))
        else
          let out = depth_iteration env (snd (should_stop env st)) rootMoves prevBestMove depth;
              it = fst out
          in if mate_found env it then (commit env result it, snd (snd out))
             else iterative_deepening env (snd (snd out)) maxDepth (fst (snd out))
                    (if committing env it then it_bestMove it else prevBestMove)
                    (commit env result it) (depth + 1)
      else (result, st))"
  by (subst iterative_deepening.simps)
    (simp add: Let_def case_prod_beta depth_iteration_def commit_def committing_def
      mate_found_def)

lemma iterations_unfold:
  "iterations env st maxDepth rootMoves prevBestMove depth =
     (if depth \<le> maxDepth \<and> depth \<le> 20 then
        if fst (should_stop env st) then []
        else
          let out = depth_iteration env (snd (should_stop env st)) rootMoves prevBestMove depth;
              it = fst out
          in if mate_found env it then [it]
             else it # iterations env (snd (snd out)) maxDepth (fst (snd out))
                    (if committing env it then it_bestMove it else prevBestMove) (depth + 1)
      else [])"
  by (subst iterations.simps) (simp add: Let_def case_prod_beta)

lemma depth_iteration_facts:
  assumes "depth_iteration env st rootMoves prevBestMove depth = (it, rootMoves', st')"
  shows "it_depth it = depth"
    and "length rootMoves' = length rootMoves"
    and "it_stopped it = stopSearch st'"
    and "\<not> it_stopped it \<Longrightarrow> it_searched it = length rootMoves"
proof -
  obtain i bm bs rm st1 where out:
    "root_iteration env st rootMoves prevBestMove depth = (i, bm, bs, rm, st1)"
    by (cases "root_iteration env st rootMoves prevBestMove depth") auto
  have it: "it = \<lparr>it_depth = depth, it_searched = i, it_bestMove = bm, it_bestScore = bs,
                  it_stopped = fst (should_stop env st1)\<rparr>"
    and rm: "rootMoves' = rm" and st': "st' = snd (should_stop env st1)"
    using assms out by (simp_all add: depth_iteration_def case_prod_beta)
  from out have ex: "length rm = length rootMoves
      \<and> (0 \<le> length rootMoves \<longrightarrow> i \<le> length rootMoves)
      \<and> (i < length rootMoves \<longrightarrow> stopSearch st1)"
    unfolding root_iteration_def Let_def
    using root_moves_exit [where i = 0 and rootMoves = rootMoves and i' = i and st' = st1]
    by (metis length_map)
  show "it_depth it = depth" using it by simp
  show "length rootMoves' = length rootMoves" using ex rm by simp
  show "it_stopped it = stopSearch st'" using it st' by (simp add: should_stop_fst)
  show "it_searched it = length rootMoves" if "\<not> it_stopped it"
  proof -
    have "\<not> stopSearch st1"
      using that it should_stop_mono [of st1 env] by (auto simp: should_stop_fst)
    then show ?thesis using ex it by force
  qed
qed

lemma iterations_stopped: "stopSearch st \<Longrightarrow> iterations env st maxDepth rootMoves prev depth = []"
  using should_stop_mono [of st env]
  by (subst iterations_unfold) (simp add: should_stop_fst)

lemma iterative_deepening_iterations:
  "fst (iterative_deepening env st maxDepth rootMoves prev result depth)
   = foldl (commit env) result (iterations env st maxDepth rootMoves prev depth)"
proof (induction "nat (21 - depth)" arbitrary: st rootMoves prev result depth)
  case 0
  then show ?case
    by (subst iterative_deepening_unfold, subst iterations_unfold) simp
next
  case (Suc k)
  have "k = nat (21 - (depth + 1))" using Suc.hyps(2) by simp
  note IH = Suc.hyps(1) [OF this]
  show ?case
    by (subst iterative_deepening_unfold, subst iterations_unfold) (simp add: Let_def IH)
qed

lemma iterations_facts:
  assumes "it \<in> set (iterations env st maxDepth rootMoves prev depth)"
  shows "depth \<le> it_depth it \<and> it_depth it \<le> maxDepth \<and> it_depth it \<le> 20
         \<and> (\<not> it_stopped it \<longrightarrow> it_searched it = length rootMoves)"
  using assms
proof (induction "nat (21 - depth)" arbitrary: st rootMoves prev depth)
  case 0
  then show ?case
    by (subst (asm) iterations_unfold) simp
next
  case (Suc k)
  have "k = nat (21 - (depth + 1))" using Suc.hyps(2) by simp
  note IH = Suc.hyps(1) [OF this]
  let ?out = "depth_iteration env (snd (should_stop env st)) rootMoves prev depth"
  obtain it0 rm st' where out: "?out = (it0, rm, st')"
    by (cases ?out) auto
  note facts = depth_iteration_facts [OF out]
  have range: "depth \<le> maxDepth \<and> depth \<le> 20"
    using Suc.prems by (subst (asm) iterations_unfold) (simp split: if_splits)
  have "it = it0
        \<or> it \<in> set (iterations env st' maxDepth rm
                       (if committing env it0 then it_bestMove it0 else prev) (depth + 1))"
    using Suc.prems out
    by (subst (asm) iterations_unfold) (auto simp: Let_def split: if_splits)
  then show ?case
  proof
    assume "it = it0"
    then show ?thesis using facts range by simp
  next
    assume "it \<in> set (iterations env st' maxDepth rm
                        (if committing env it0 then it_bestMove it0 else prev) (depth + 1))"
    from IH [OF this] facts(2) show ?thesis by simp
  qed
qed

lemma iterations_eq:
  assumes "depth_iteration env (snd (should_stop env st)) rootMoves prev depth = (it0, rm, st')"
  shows "iterations env st maxDepth rootMoves prev depth =
           (if depth \<le> maxDepth \<and> depth \<le> 20 \<and> \<not> fst (should_stop env st)
            then (if mate_found env it0 then [it0]
                  else it0 # iterations env st' maxDepth rm
                               (if committing env it0 then it_bestMove it0 else prev)
                               (depth + 1))
            else [])"
  using assms by (subst iterations_unfold) (simp add: Let_def)

lemma iterations_stopped_last:
  assumes "Suc k < length (iterations env st maxDepth rootMoves prev depth)"
  shows "\<not> it_stopped (iterations env st maxDepth rootMoves prev depth ! k)"
  using assms
proof (induction k arbitrary: st rootMoves prev depth)
  case 0
  let ?out = "depth_iteration env (snd (should_stop env st)) rootMoves prev depth"
  obtain it0 rm st' where out: "?out = (it0, rm, st')"
    by (cases ?out) auto
  let ?rest = "iterations env st' maxDepth rm
                 (if committing env it0 then it_bestMove it0 else prev) (depth + 1)"
  have eq: "iterations env st maxDepth rootMoves prev depth = it0 # ?rest"
    using "0.prems" unfolding iterations_eq [OF out] by (simp split: if_splits)
  then have "?rest \<noteq> []"
    using "0.prems" by auto
  then have "\<not> stopSearch st'"
    using iterations_stopped [of st' env maxDepth rm
        "if committing env it0 then it_bestMove it0 else prev" "depth + 1"]
    by auto
  then show ?case
    using eq depth_iteration_facts(3) [OF out] by simp
next
  case (Suc k)
  let ?out = "depth_iteration env (snd (should_stop env st)) rootMoves prev depth"
  obtain it0 rm st' where out: "?out = (it0, rm, st')"
    by (cases ?out) auto
  let ?rest = "iterations env st' maxDepth rm
                 (if committing env it0 then it_bestMove it0 else prev) (depth + 1)"
  have eq: "iterations env st maxDepth rootMoves prev depth = it0 # ?rest"
    using Suc.prems unfolding iterations_eq [OF out] by (simp split: if_splits)
  then have "Suc k < length ?rest" using Suc.prems by simp
  from Suc.IH [OF this] eq show ?case by simp
qed

lemma foldl_commit:
  "foldl (commit env) result its =
     (if filter (committing env) its = [] then result
      else result\<lparr>r_bestMove := it_bestMove (last (filter (committing env) its)),
             r_score := it_bestScore (last (filter (committing env) its)),
             r_depth := it_depth (last (filter (committing env) its))\<rparr>)"
proof (induction its rule: rev_induct)
  case Nil
  then show ?case by simp
next
  case (snoc it its)
  then show ?case by (simp add: commit_def)
qed

text \<open>
  C4. With two or more legal root moves, the move, score and depth that \<^verbatim>\<open>search\<close>
  returns are those of the last pass over the depths that committed, and the initial
  \<open>none, 0, 0\<close> if no pass did. A pass commits only if \<^verbatim>\<open>should_stop\<close> answered no
  after its loop over the root moves (and its best move is a move). Every pass after
  which \<^verbatim>\<open>should_stop\<close> answered no has searched all the root moves; every pass
  runs at a depth from 1 to the smaller of \<open>maxDepth\<close> and 20; and a pass after which
  \<^verbatim>\<open>should_stop\<close> answered yes, which includes every pass whose loop was left by
  \<^verbatim>\<open>break\<close>, is the last pass of the search and commits nothing.
\<close>

theorem search_returns_last_commit:
  assumes "2 \<le> length (generate_LEGAL env (pos st))"
  shows "let st0 = st\<lparr>nodeCount := 0, clockReads := 0, searchTimeMs := timeMs,
                      stopSearch := False,
                      killerMoves := (\<lambda>ply slot. Move_none env),
                      history := (\<lambda>c f t. 0)\<rparr>;
             rootMoves = generate_LEGAL env (pos st);
             passes = iterations env st0 maxDepth rootMoves (Move_none env) 1;
             committed = filter (committing env) passes;
             r = fst (search env st maxDepth timeMs)
         in (if committed = []
             then r_bestMove r = Move_none env \<and> r_score r = 0 \<and> r_depth r = 0
             else r_bestMove r = it_bestMove (last committed)
                  \<and> r_score r = it_bestScore (last committed)
                  \<and> r_depth r = it_depth (last committed))
            \<and> list_all (\<lambda>it. 1 \<le> it_depth it \<and> it_depth it \<le> maxDepth \<and> it_depth it \<le> 20
                              \<and> (\<not> it_stopped it \<longrightarrow> it_searched it = length rootMoves))
                 passes
            \<and> list_all (\<lambda>it. \<not> it_stopped it) (butlast passes)"
proof -
  let ?st0 = "st\<lparr>nodeCount := 0, clockReads := 0, searchTimeMs := timeMs,
                  stopSearch := False,
                  killerMoves := (\<lambda>ply slot. Move_none env),
                  history := (\<lambda>c f t. 0)\<rparr>"
  let ?rm = "generate_LEGAL env (pos st)"
  let ?init = "\<lparr>r_bestMove = Move_none env, r_score = 0, r_depth = 0, r_nodes = 0\<rparr>"
  let ?passes = "iterations env ?st0 maxDepth ?rm (Move_none env) 1"
  let ?id = "iterative_deepening env ?st0 maxDepth ?rm (Move_none env) ?init 1"
  have "length ?rm \<noteq> 0" and "length ?rm \<noteq> 1"
    using assms by auto
  then have "fst (search env st maxDepth timeMs) = (fst ?id)\<lparr>r_nodes := nodeCount (snd ?id)\<rparr>"
    unfolding search_unfold Let_def by (simp add: case_prod_beta)
  then have result:
    "fst (search env st maxDepth timeMs)
     = (foldl (commit env) ?init ?passes)\<lparr>r_nodes := nodeCount (snd ?id)\<rparr>"
    by (simp add: iterative_deepening_iterations)
  have all: "list_all (\<lambda>it. 1 \<le> it_depth it \<and> it_depth it \<le> maxDepth \<and> it_depth it \<le> 20
                             \<and> (\<not> it_stopped it \<longrightarrow> it_searched it = length ?rm)) ?passes"
    unfolding list_all_iff using iterations_facts [of _ env ?st0 maxDepth ?rm "Move_none env" 1]
    by blast
  have last: "list_all (\<lambda>it. \<not> it_stopped it) (butlast ?passes)"
    unfolding list_all_length
    using iterations_stopped_last [of _ env ?st0 maxDepth ?rm "Move_none env" 1]
    by (simp add: nth_butlast)
  show ?thesis
    unfolding Let_def result foldl_commit using all last by simp
qed

text \<open>
  In the example game with a budget of one second, the passes of depth 1 and 2 both
  search the two root moves and commit; the second finds the mate and ends the search.
  With a budget of 10 milliseconds the first child of the pass of depth 1 sets the stop
  flag: the pass is left at the first root move and commits nothing.
\<close>

lemma toy_passes:
  "iterations toy_env
     (toy_state\<lparr>nodeCount := 0, clockReads := 0, searchTimeMs := 1000, stopSearch := False,
        killerMoves := (\<lambda>ply slot. Move_none toy_env), history := (\<lambda>c f t. 0)\<rparr>)
     2 [10, 20] 0 1
   = [\<lparr>it_depth = 1, it_searched = 2, it_bestMove = 20, it_bestScore = 470,
       it_stopped = False\<rparr>,
      \<lparr>it_depth = 2, it_searched = 2, it_bestMove = 20, it_bestScore = 31999,
       it_stopped = False\<rparr>]"
  "iterations toy_env
     (toy_state\<lparr>nodeCount := 0, clockReads := 0, searchTimeMs := 10, stopSearch := False,
        killerMoves := (\<lambda>ply slot. Move_none toy_env), history := (\<lambda>c f t. 0)\<rparr>)
     2 [10, 20] 0 1
   = [\<lparr>it_depth = 1, it_searched = 0, it_bestMove = 0, it_bestScore = - 32001,
       it_stopped = True\<rparr>]"
  by (simp_all add: toy_eval)

lemma toy_search:
  "fst (search toy_env toy_state 2 1000)
   = \<lparr>r_bestMove = 20, r_score = 31999, r_depth = 2, r_nodes = 6\<rparr>"
  "fst (search toy_env toy_state 2 10)
   = \<lparr>r_bestMove = 0, r_score = 0, r_depth = 0, r_nodes = 0\<rparr>"
  by (simp_all add: search_unfold toy_eval)

theorem search_returns_last_commit_witness:
  "2 \<le> length (generate_LEGAL toy_env (pos toy_state))
   \<and> fst (search toy_env toy_state 2 1000)
       = \<lparr>r_bestMove = 20, r_score = 31999, r_depth = 2, r_nodes = 6\<rparr>"
  using search_returns_last_commit [of toy_env toy_state 1000 2] toy_search(1)
  by (simp add: toy_state_def)

end
